theory Spec2Isabelle
  imports Main "HOL-Library.Word"
begin

section \<open>Machine model\<close>

text \<open>
  The sources are C++20 for Linux. The embedding fixes the x86-64 System V data model:
  little endian, \<open>int\<close> and \<open>enum class log_level\<close> of 4 bytes, \<open>size_t\<close>, \<open>time_t\<close>,
  \<open>int64_t\<close> and pointers of 8 bytes, each aligned to its size. A \<open>size_t\<close> value is a
  natural number below \<open>2 ^ 64\<close>; the sums and differences the sources compute on
  \<open>size_t\<close> are written with their wrap-around (\<open>size_add\<close>, \<open>size_sub\<close>). A pointer is
  the number \<open>reinterpret_cast<size_t>\<close> gives, \<open>0\<close> for \<open>nullptr\<close>. Member names lose the
  trailing underscore of the sources (\<open>ptrs_\<close> is \<open>ptrs\<close>), which is not a legal name here.
  Mutexes and read-write locks are left out: every function below is one sequential call.
\<close>

type_synonym byte = "8 word"

type_synonym addr = nat

definition size_add :: "nat \<Rightarrow> nat \<Rightarrow> nat" where
  "size_add a b = (a + b) mod 2 ^ 64"

definition size_sub :: "nat \<Rightarrow> nat \<Rightarrow> nat" where
  "size_sub a b = (a mod 2 ^ 64 + 2 ^ 64 - b mod 2 ^ 64) mod 2 ^ 64"

text \<open>Conversion of an \<open>int\<close> or \<open>int64_t\<close> operand to \<open>size_t\<close>, and of a \<open>size_t\<close> to \<open>ssize_t\<close>.\<close>

definition size_of_int :: "int \<Rightarrow> nat" where
  "size_of_int i = nat (i mod 2 ^ 64)"


text \<open>
  \<open>memory_exception(who, reason)\<close> and \<open>io_exception(who, reason)\<close> are the two exception
  classes of the sources. \<open>undefined_behavior\<close> stands for an execution the C++ standard
  does not define (a null or out-of-bounds access, a division by zero, a signed overflow).
\<close>

datatype failure =
    memory_exception string string
  | io_exception string string
  | undefined_behavior

text \<open>\<open>and_then r k\<close> continues with \<open>k\<close> unless \<open>r\<close> is a failure, which it passes on.\<close>

definition and_then :: "failure + 'a \<Rightarrow> ('a \<Rightarrow> failure + 'c) \<Rightarrow> failure + 'c" where
  "and_then r k = (case r of Inl x \<Rightarrow> Inl x | Inr v \<Rightarrow> k v)"

section \<open>Allocators (memory.h)\<close>

subsection \<open>The C library heap\<close>

text \<open>
  The heap of \<open>malloc\<close>, \<open>realloc\<close> and \<open>free\<close> is the map from the base address of each
  live block to its size. The address a call returns is chosen by the C library, so it is
  the first argument \<open>r\<close> of the model of the call; \<open>r = 0\<close> is the call failing.
\<close>

type_synonym c_heap = "addr \<rightharpoonup> nat"

definition c_malloc :: "addr \<Rightarrow> nat \<Rightarrow> c_heap \<Rightarrow> addr \<times> c_heap" where
  "c_malloc r n h = (if r = 0 then (0, h) else (r, h(r \<mapsto> n)))"

definition c_realloc :: "addr \<Rightarrow> addr \<Rightarrow> nat \<Rightarrow> c_heap \<Rightarrow> addr \<times> c_heap" where
  "c_realloc r p n h = (if r = 0 then (0, h) else (r, (h(p := None))(r \<mapsto> n)))"

subsection \<open>heap_allocator\<close>

record heap_allocator =
  ptrs :: "addr list"

definition allocate ::
  "addr \<Rightarrow> nat \<Rightarrow> heap_allocator \<times> c_heap \<Rightarrow> (failure + addr) \<times> heap_allocator \<times> c_heap" where
  "allocate r sz ah =
     (case ah of (a, h) \<Rightarrow>
        (case c_malloc r sz h of (ptr, h') \<Rightarrow>
           if ptr = 0
           then (Inl (memory_exception ''heap_allocator::allocate()'' ''malloc() returned nullptr''), a, h')
           else (Inr ptr, a\<lparr>ptrs := ptrs a @ [ptr]\<rparr>, h')))"

text \<open>
  The loop of \<open>reallocate\<close> over \<open>ptrs_\<close>, by reference: the first entry equal to \<open>ptr\<close> is
  overwritten with the result of \<open>realloc\<close> (also when that is null, before the throw);
  when the loop ends without a match the function returns \<open>nullptr\<close>.
\<close>

fun reallocate_loop ::
  "addr \<Rightarrow> addr \<Rightarrow> nat \<Rightarrow> addr list \<Rightarrow> c_heap \<Rightarrow> (failure + addr) \<times> addr list \<times> c_heap" where
  "reallocate_loop r ptr sz [] h = (Inr 0, [], h)"
| "reallocate_loop r ptr sz (recorded # rest) h =
     (if recorded = ptr
      then (case c_realloc r ptr sz h of (recorded', h') \<Rightarrow>
              if recorded' = 0
              then (Inl (memory_exception ''heap_allocator::reallocate()'' ''realloc() returned nullptr''),
                    recorded' # rest, h')
              else (Inr recorded', recorded' # rest, h'))
      else (case reallocate_loop r ptr sz rest h of (res, rest', h') \<Rightarrow> (res, recorded # rest', h')))"

definition reallocate ::
  "addr \<Rightarrow> addr \<Rightarrow> nat \<Rightarrow> heap_allocator \<times> c_heap \<Rightarrow> (failure + addr) \<times> heap_allocator \<times> c_heap" where
  "reallocate r ptr sz ah =
     (case ah of (a, h) \<Rightarrow>
        (case reallocate_loop r ptr sz (ptrs a) h of (res, ps, h') \<Rightarrow> (res, a\<lparr>ptrs := ps\<rparr>, h')))"

subsection \<open>aligned_heap_allocator\<close>

record aligned_chunk =
  ptr :: addr
  offset :: nat

record aligned_heap_allocator =
  chunks :: "aligned_chunk list"
  align :: int

text \<open>
  \<open>chunks\<close> is the member \<open>ptrs_\<close> of \<open>aligned_heap_allocator\<close>. \<open>align_\<close> is an \<open>int\<close>; in
  \<open>size + align_\<close> and \<open>reinterpret_cast<size_t>(ptr) % align_\<close> it is converted to
  \<open>size_t\<close>, and the remainder by zero is undefined.
\<close>

definition aligned_allocate ::
  "addr \<Rightarrow> nat \<Rightarrow> aligned_heap_allocator \<times> c_heap
     \<Rightarrow> (failure + addr) \<times> aligned_heap_allocator \<times> c_heap" where
  "aligned_allocate r sz ah =
     (case ah of (a, h) \<Rightarrow>
        (case c_malloc r (size_add sz (size_of_int (align a))) h of (p, h') \<Rightarrow>
           if p = 0
           then (Inl (memory_exception ''aligned_heap_allocator::allocate()'' ''malloc() returned nullptr''),
                 a, h')
           else if size_of_int (align a) = 0 then (Inl undefined_behavior, a, h')
           else (let off = p mod size_of_int (align a);
                     p' = size_add p off
                 in (Inr p', a\<lparr>chunks := chunks a @ [\<lparr>ptr = p', offset = off\<rparr>]\<rparr>, h'))))"

fun aligned_reallocate_loop ::
  "addr \<Rightarrow> addr \<Rightarrow> nat \<Rightarrow> nat \<Rightarrow> aligned_chunk list \<Rightarrow> c_heap
     \<Rightarrow> (failure + addr) \<times> aligned_chunk list \<times> c_heap" where
  "aligned_reallocate_loop r p sz al [] h = (Inr 0, [], h)"
| "aligned_reallocate_loop r p sz al (entry # rest) h =
     (if ptr entry = p
      then (case c_realloc r (size_sub (ptr entry) (offset entry)) (size_add sz al) h of
              (base, h') \<Rightarrow>
                if base = 0
                then (Inl (memory_exception ''aligned_heap_allocator::reallocate()''
                             ''realloc() returned nullptr''), entry # rest, h')
                else if al = 0 then (Inl undefined_behavior, entry # rest, h')
                else (let off = base mod al;
                          entry' = \<lparr>ptr = size_add base off, offset = off\<rparr>
                      in (Inr (ptr entry'), entry' # rest, h')))
      else (case aligned_reallocate_loop r p sz al rest h of
              (res, rest', h') \<Rightarrow> (res, entry # rest', h')))"

definition aligned_reallocate ::
  "addr \<Rightarrow> addr \<Rightarrow> nat \<Rightarrow> aligned_heap_allocator \<times> c_heap
     \<Rightarrow> (failure + addr) \<times> aligned_heap_allocator \<times> c_heap" where
  "aligned_reallocate r p sz ah =
     (case ah of (a, h) \<Rightarrow>
        (case aligned_reallocate_loop r p sz (size_of_int (align a)) (chunks a) h of
           (res, cs, h') \<Rightarrow> (res, a\<lparr>chunks := cs\<rparr>, h')))"

section \<open>Buffers (memory.h)\<close>

text \<open>
  What the concept \<open>is_buffer\<close> asks of a buffer is \<open>pointer()\<close>, \<open>capacity()\<close> and the lock.
  A buffer is its capacity and the contents of the block at \<open>pointer()\<close>, \<open>capacity\<close> bytes
  long. The environment of the allocations is a record: \<open>can_alloc n\<close> says whether the C
  library satisfies a request of \<open>n\<close> bytes, \<open>uninit i\<close> is the byte a fresh block holds at
  offset \<open>i\<close> (\<open>malloc\<close> and \<open>realloc\<close> do not initialise).
\<close>

record buffer =
  capacity :: nat
  bytes :: "byte list"

record env =
  can_alloc :: "nat \<Rightarrow> bool"
  uninit :: "nat \<Rightarrow> byte"

text \<open>
  \<open>expand(new_capacity)\<close> of both buffer classes: \<open>reallocate\<close> keeps the contents up to
  the smaller of the two sizes, or throws.
\<close>

definition expand :: "env \<Rightarrow> nat \<Rightarrow> 'b buffer_scheme \<Rightarrow> failure + 'b buffer_scheme" where
  "expand e new_capacity b =
     (if can_alloc e new_capacity
      then Inr (b\<lparr>capacity := new_capacity,
                  bytes := take new_capacity (bytes b)
                           @ map (uninit e) [length (bytes b)..<new_capacity]\<rparr>)
      else Inl (memory_exception ''heap_allocator::reallocate()'' ''realloc() returned nullptr''))"

subsection \<open>unique_array_buffer\<close>

definition unique_array_buffer :: "env \<Rightarrow> nat \<Rightarrow> failure + buffer" where
  "unique_array_buffer e cap =
     (if can_alloc e cap
      then Inr \<lparr>capacity = cap, bytes = replicate cap 0\<rparr>
      else Inl (memory_exception ''heap_allocator::allocate()'' ''malloc() returned nullptr''))"

subsection \<open>shared_array_buffer\<close>

text \<open>
  The block \<open>meta\<close> that all copies of one shared buffer point to: the buffer and the
  reference count (an \<open>int\<close>, whose overflow is undefined). \<open>sizeof_meta\<close> is the size of
  the struct with libstdc++ on x86-64; the model only asks the environment for it.
\<close>

record meta = buffer +
  reference_count :: int

definition sizeof_meta :: nat where
  "sizeof_meta = 128"

definition INT_MAX :: int where
  "INT_MAX = 2147483647"

definition INT_MIN :: int where
  "INT_MIN = - 2147483648"

definition shared_array_buffer :: "env \<Rightarrow> nat \<Rightarrow> failure + meta" where
  "shared_array_buffer e cap =
     (if \<not> can_alloc e sizeof_meta
      then Inl (memory_exception ''heap_allocator::allocate()'' ''malloc() returned nullptr'')
      else if \<not> can_alloc e cap
      then Inl (memory_exception ''heap_allocator::allocate()'' ''malloc() returned nullptr'')
      else Inr \<lparr>capacity = cap, bytes = map (uninit e) [0..<cap], reference_count = 0 + 1\<rparr>)"

text \<open>
  The copy constructor, on the block the source object points to. It returns the
  exception it throws or \<open>()\<close>, and the block afterwards. The model reads the fields of a
  block whose count is zero as the source does, although the destructor that brought the
  count to zero has freed the block.
\<close>

definition shared_array_buffer_copy :: "meta \<Rightarrow> (failure + unit) \<times> meta" where
  "shared_array_buffer_copy m =
     (if reference_count m = 0
      then (Inl (memory_exception
                   ''shared_array_buffer::shared_array_buffer(const shared_array_buffer&)''
                   ''source array buffer has released''), m)
      else if reference_count m = INT_MAX then (Inl undefined_behavior, m)
      else (Inr (), m\<lparr>reference_count := reference_count m + 1\<rparr>))"

text \<open>
  An object of class \<open>shared_array_buffer\<close> is its member \<open>meta_\<close>: null after a move, or
  the address of the block. The destructor tests \<open>&meta_->ptr != nullptr\<close>; \<open>ptr\<close> is the
  first member of \<open>meta\<close>, so that address is \<open>meta_\<close> itself and the test is \<open>meta_ != nullptr\<close>.
  The second component of the destructor's state counts the executions of
  \<open>meta_->allocator->release(); delete allocator_ptr\<close>. The release frees the block
  \<open>meta\<close> too, which the allocator handed out; the \<open>unlock\<close> that follows it in the
  destructor is, like every lock operation, not part of the model.
\<close>

datatype meta_ptr = nullptr | block

definition shared_array_buffer_destroy :: "meta_ptr \<Rightarrow> meta \<times> nat \<Rightarrow> failure + meta \<times> nat" where
  "shared_array_buffer_destroy p mr =
     (case mr of (m, released) \<Rightarrow>
        (case p of
           nullptr \<Rightarrow> Inr (m, released)
         | block \<Rightarrow>
             if reference_count m = INT_MIN then Inl undefined_behavior
             else (let m' = m\<lparr>reference_count := reference_count m - 1\<rparr>
                   in if reference_count m' = 0 then Inr (m', released + 1) else Inr (m', released))))"

text \<open>
  The objects of one shared buffer. \<open>objects\<close> lists the member \<open>meta_\<close> of every object that
  has been constructed and not yet destroyed. An operation names the object it copies,
  moves from or destroys by its index. An index outside the list, and a copy from a
  moved-from object (which dereferences null), are undefined; a copy that throws
  constructs nothing and leaves the state as it is.
\<close>

record world =
  the_meta :: meta
  releases :: nat
  objects :: "meta_ptr list"

datatype operation = copy_construct nat | move_construct nat | destroy nat

fun apply_operation :: "operation \<Rightarrow> world \<Rightarrow> failure + world" where
  "apply_operation (copy_construct i) w =
     (if length (objects w) \<le> i then Inl undefined_behavior
      else (case objects w ! i of
              nullptr \<Rightarrow> Inl undefined_behavior
            | block \<Rightarrow>
                (case shared_array_buffer_copy (the_meta w) of
                   (Inl undefined_behavior, m) \<Rightarrow> Inl undefined_behavior
                 | (Inl thrown, m) \<Rightarrow> Inr w
                 | (Inr u, m) \<Rightarrow> Inr (w\<lparr>the_meta := m, objects := objects w @ [block]\<rparr>))))"
| "apply_operation (move_construct i) w =
     (if length (objects w) \<le> i then Inl undefined_behavior
      else Inr (w\<lparr>objects := (objects w)[i := nullptr] @ [objects w ! i]\<rparr>))"
| "apply_operation (destroy i) w =
     (if length (objects w) \<le> i then Inl undefined_behavior
      else (case shared_array_buffer_destroy (objects w ! i) (the_meta w, releases w) of
              Inl e \<Rightarrow> Inl e
            | Inr (m, r) \<Rightarrow>
                Inr (w\<lparr>the_meta := m, releases := r,
                       objects := take i (objects w) @ drop (Suc i) (objects w)\<rparr>)))"

fun run :: "operation list \<Rightarrow> world \<Rightarrow> failure + world" where
  "run [] w = Inr w"
| "run (op # ops) w = (case apply_operation op w of Inl e \<Rightarrow> Inl e | Inr w' \<Rightarrow> run ops w')"

definition initial_world :: "meta \<Rightarrow> world" where
  "initial_world m = \<lparr>the_meta = m, releases = 0, objects = [block]\<rparr>"

text \<open>
  The number of live copies is the number of objects that still point to the block. A
  state is consistent when the reference count is that number and the allocator has been
  released once if the count is zero and never otherwise.
\<close>

definition live :: "world \<Rightarrow> nat" where
  "live w = count_list (objects w) block"

definition consistent :: "world \<Rightarrow> bool" where
  "consistent w \<longleftrightarrow>
     reference_count (the_meta w) = int (live w) \<and>
     releases w = (if reference_count (the_meta w) = 0 then 1 else 0)"

section \<open>buffer_stream (memory.h)\<close>

subsection \<open>Object representations\<close>

text \<open>
  The \<open>n\<close> bytes of an unsigned value in little-endian order, and the value of a run of
  bytes. A \<open>char\<close> of a string and the byte that stores it.
\<close>

fun le_bytes :: "nat \<Rightarrow> nat \<Rightarrow> byte list" where
  "le_bytes 0 v = []"
| "le_bytes (Suc n) v = word_of_nat (v mod 256) # le_bytes n (v div 256)"

fun le_value :: "byte list \<Rightarrow> nat" where
  "le_value [] = 0"
| "le_value (b # bs) = unat b + 256 * le_value bs"

definition byte_of_char :: "char \<Rightarrow> byte" where
  "byte_of_char c = word_of_nat (of_char c)"

definition char_of_byte :: "byte \<Rightarrow> char" where
  "char_of_byte b = char_of (unat b)"

subsection \<open>The stream\<close>

record 'b buffer_stream =
  buffer :: "'b buffer_scheme"
  position :: nat
  eof :: bool
  auto_expand :: bool

definition buffer_stream :: "'b buffer_scheme \<Rightarrow> 'b buffer_stream" where
  "buffer_stream b = \<lparr>buffer = b, position = 0, eof = False, auto_expand = False\<rparr>"

text \<open>
  The accesses through a pointer into the buffer's block: the block is the bytes the
  buffer holds. \<open>load b p n\<close> is the \<open>n\<close> bytes a \<open>memcpy\<close>, a dereference or a string view
  reads at offset \<open>p\<close>; \<open>store b p src n\<close> is the block after \<open>memcpy(pointer() + p, src, n)\<close>.
  An access that leaves the block (also when the bounds test before it has passed,
  because its sum wrapped around) is undefined.
\<close>

definition load :: "'b buffer_scheme \<Rightarrow> nat \<Rightarrow> nat \<Rightarrow> failure + byte list" where
  "load b p n =
     (if p + n \<le> length (bytes b) then Inr (take n (drop p (bytes b)))
      else Inl undefined_behavior)"

definition store :: "'b buffer_scheme \<Rightarrow> nat \<Rightarrow> byte list \<Rightarrow> nat \<Rightarrow> failure + 'b buffer_scheme" where
  "store b p src n =
     (if p + n \<le> length (bytes b) \<and> n \<le> length src
      then Inr (b\<lparr>bytes := take p (bytes b) @ take n src @ drop (p + n) (bytes b)\<rparr>)
      else Inl undefined_behavior)"

text \<open>
  \<open>reference\<close> returns \<open>buffer_.pointer() + offset\<close> or null: the model returns the offset
  from \<open>pointer()\<close>, or \<open>None\<close>. \<open>read\<close> returns the bytes \<open>memcpy\<close> stores into \<open>dest\<close>, or
  \<open>None\<close> for \<open>false\<close>. \<open>write'\<close> is the member \<open>write\<close> (a keyword here): it
  returns the stream with the buffer written, or \<open>None\<close> for \<open>false\<close>.
\<close>

definition reference :: "'b buffer_stream \<Rightarrow> nat \<Rightarrow> nat \<Rightarrow> nat option" where
  "reference s off sz =
     (if size_add off sz > capacity (buffer s) then None else Some off)"

definition read :: "'b buffer_stream \<Rightarrow> nat \<Rightarrow> nat \<Rightarrow> failure + byte list option" where
  "read s off sz =
     (case reference s off sz of
        Some ref \<Rightarrow> and_then (load (buffer s) ref sz) (\<lambda>dest. Inr (Some dest))
      | None \<Rightarrow> Inr None)"

definition write' ::
  "'b buffer_stream \<Rightarrow> byte list \<Rightarrow> nat \<Rightarrow> nat \<Rightarrow> failure + 'b buffer_stream option" where
  "write' s src off sz =
     (if size_add off sz > capacity (buffer s) then Inr None
      else and_then (store (buffer s) off src sz) (\<lambda>b. Inr (Some (s\<lparr>buffer := b\<rparr>))))"





text \<open>
  \<open>std::string get()\<close>. \<open>strlen\<close> scans from \<open>pointer() + position_\<close> for the first zero
  byte; when the buffer holds none from there on, the scan leaves the buffer, which is
  undefined.
\<close>

fun strlen :: "byte list \<Rightarrow> nat option" where
  "strlen [] = None"
| "strlen (b # bs) = (if b = 0 then Some 0 else map_option Suc (strlen bs))"

definition get_string :: "'b buffer_stream \<Rightarrow> failure + byte list \<times> 'b buffer_stream" where
  "get_string s =
     (case strlen (drop (position s) (bytes (buffer s))) of
        None \<Rightarrow> Inl undefined_behavior
      | Some len \<Rightarrow>
          (let curr = size_add (position s) len;
               s1 = (if curr = capacity (buffer s) then s\<lparr>eof := True\<rparr> else s);
               s2 = s1\<lparr>position := curr\<rparr>
           in case read s2 (size_sub (position s2) len) len of
                Inl x \<Rightarrow> Inl x
              | Inr None \<Rightarrow> Inr ([], s2\<lparr>eof := True\<rparr>)
              | Inr (Some str) \<Rightarrow> Inr (str, s2)))"

text \<open>
  \<open>T& get_as<T>()\<close> for a type of \<open>step\<close> bytes: the bytes the returned reference
  designates. \<open>std::string_view get_as()\<close>: the bytes of the view.
\<close>

definition get_as_T :: "nat \<Rightarrow> 'b buffer_stream \<Rightarrow> failure + byte list \<times> 'b buffer_stream" where
  "get_as_T step s =
     (let curr = size_add (position s) step;
          s1 = (if curr = capacity (buffer s) then s\<lparr>eof := True\<rparr> else s);
          s2 = s1\<lparr>position := curr\<rparr>
      in case reference s2 (size_sub (position s2) step) step of
           None \<Rightarrow> Inl (memory_exception ''buffer_stream::get_as<T>()''
                          ''segment fault, invalid pointer access'')
         | Some p \<Rightarrow> and_then (load (buffer s2) p step) (\<lambda>object. Inr (object, s2)))"

definition get_as_view :: "'b buffer_stream \<Rightarrow> failure + byte list \<times> 'b buffer_stream" where
  "get_as_view s =
     (case reference s (position s) 8 of
        None \<Rightarrow> Inr ([], s\<lparr>eof := True\<rparr>)
      | Some len_ptr \<Rightarrow>
          and_then (load (buffer s) len_ptr 8)
            (\<lambda>length_field.
               let len = le_value length_field
               in case reference s (size_add (position s) 8) len of
                    None \<Rightarrow> Inr ([], s\<lparr>eof := True\<rparr>)
                  | Some data \<Rightarrow>
                      and_then (load (buffer s) data len)
                        (\<lambda>view. Inr (view, s\<lparr>position := size_add (position s) (size_add 8 len)\<rparr>))))"

text \<open>
  The three overloads of \<open>append\<close>. Each returns the exception \<open>expand\<close> throws (or the
  undefined store), or the boolean result and the stream afterwards. \<open>grow\<close> is their common first statement,
  \<open>if (auto_expand) { if (curr >= buffer_.capacity()) { buffer_.expand(curr); } }\<close>. \<open>append_T\<close> takes the object representation
  of its argument, \<open>sizeof(T)\<close> bytes.
\<close>

definition grow :: "env \<Rightarrow> nat \<Rightarrow> 'b buffer_stream \<Rightarrow> failure + 'b buffer_stream" where
  "grow e new_capacity s =
     (if auto_expand s \<and> new_capacity \<ge> capacity (buffer s)
      then (case expand e new_capacity (buffer s) of Inl x \<Rightarrow> Inl x | Inr b \<Rightarrow> Inr (s\<lparr>buffer := b\<rparr>))
      else Inr s)"

definition append_T :: "env \<Rightarrow> byte list \<Rightarrow> 'b buffer_stream \<Rightarrow> failure + bool \<times> 'b buffer_stream" where
  "append_T e t s =
     (let step = length t;
          curr = size_add (position s) step
      in case grow e curr s of
           Inl x \<Rightarrow> Inl x
         | Inr s0 \<Rightarrow>
             (let s1 = (if curr = capacity (buffer s0) then s0\<lparr>eof := True\<rparr> else s0);
                  s2 = s1\<lparr>position := curr\<rparr>
              in case write' s2 t (size_sub (position s2) step) step of
                   Inl x \<Rightarrow> Inl x
                 | Inr None \<Rightarrow> Inr (False, s2\<lparr>eof := True\<rparr>)
                 | Inr (Some s3) \<Rightarrow> Inr (True, s3)))"

definition append_view :: "env \<Rightarrow> byte list \<Rightarrow> 'b buffer_stream \<Rightarrow> failure + bool \<times> 'b buffer_stream" where
  "append_view e sv s =
     (let original_length = length sv;
          len = size_add original_length 8;
          curr = size_add (position s) len
      in case grow e curr s of
           Inl x \<Rightarrow> Inl x
         | Inr s0 \<Rightarrow>
             (let s1 = (if curr = capacity (buffer s0) then s0\<lparr>eof := True\<rparr> else s0);
                  s2 = s1\<lparr>position := curr\<rparr>
              in case write' s2 (le_bytes 8 original_length) (size_sub (position s2) len) 8 of
                   Inl x \<Rightarrow> Inl x
                 | Inr None \<Rightarrow> Inr (False, s2\<lparr>eof := True\<rparr>)
                 | Inr (Some s3) \<Rightarrow>
                     (case write' s3 sv (size_sub (position s3) original_length) original_length of
                        Inl x \<Rightarrow> Inl x
                      | Inr None \<Rightarrow> Inr (False, s3\<lparr>eof := True\<rparr>)
                      | Inr (Some s4) \<Rightarrow> Inr (True, s4))))"

definition append_raw :: "env \<Rightarrow> byte list \<Rightarrow> nat \<Rightarrow> 'b buffer_stream \<Rightarrow> failure + bool \<times> 'b buffer_stream" where
  "append_raw e src sz s =
     (let curr = size_add (position s) sz
      in case grow e curr s of
           Inl x \<Rightarrow> Inl x
         | Inr s0 \<Rightarrow>
             (let s1 = (if curr = capacity (buffer s0) then s0\<lparr>eof := True\<rparr> else s0);
                  s2 = s1\<lparr>position := curr\<rparr>
              in case write' s2 src (size_sub (position s2) sz) sz of
                   Inl x \<Rightarrow> Inl x
                 | Inr None \<Rightarrow> Inr (False, s2\<lparr>eof := True\<rparr>)
                 | Inr (Some s3) \<Rightarrow> Inr (True, s3)))"

section \<open>The logging event (log.h)\<close>

text \<open>
  \<open>enum class log_level\<close> has \<open>int\<close> as its underlying type; an object of the type holds
  any 32-bit value, the enumerators being 0 to 6. \<open>time_t\<close> is a 64-bit integer. The
  members \<open>from_\<close> and \<open>msg_\<close> are string views, modelled by the characters they view.
\<close>

datatype log_level = UNKNOWN | TRACE | INFO | WARN | DEBUG | ERROR | FATAL

fun log_level_value :: "log_level \<Rightarrow> 32 word" where
  "log_level_value UNKNOWN = 0"
| "log_level_value TRACE = 1"
| "log_level_value INFO = 2"
| "log_level_value WARN = 3"
| "log_level_value DEBUG = 4"
| "log_level_value ERROR = 5"
| "log_level_value FATAL = 6"

record event_log =
  ev_buffer :: meta
  ev_lv :: "32 word"
  ev_tm :: "64 word"
  ev_from :: string
  ev_msg :: string

text \<open>
  \<open>appended r exc k\<close> is the statement \<open>if (!stream.append(x)) throw exc;\<close> followed
  by \<open>k\<close>.
\<close>

definition appended :: "failure + bool \<times> 's \<Rightarrow> failure \<Rightarrow> ('s \<Rightarrow> failure + 'c) \<Rightarrow> failure + 'c" where
  "appended r exc k = (case r of Inl x \<Rightarrow> Inl x | Inr (ok, s) \<Rightarrow> if ok then k s else Inl exc)"

text \<open>The constructor \<open>event_log(lv, tm, from, msg)\<close>.\<close>

definition event_log :: "env \<Rightarrow> 32 word \<Rightarrow> 64 word \<Rightarrow> string \<Rightarrow> string \<Rightarrow> failure + event_log" where
  "event_log e lv tm frm msg =
     and_then (shared_array_buffer e
                 (size_add (size_add (size_add (size_add 4 8) (length frm)) (length msg)) 1))
       (\<lambda>b. let stream = (buffer_stream b)\<lparr>auto_expand := True\<rparr> in
          appended (append_T e (le_bytes 4 (unat lv)) stream)
            (memory_exception ''event_log::event_log()''
               ''cannot write log_level to event_log array buffer'')
            (\<lambda>s1. appended (append_T e (le_bytes 8 (unat tm)) s1)
               (memory_exception ''event_log::event_log()''
                  ''cannot write time_t to event_log array buffer'')
               (\<lambda>s2. appended (append_view e (map byte_of_char frm) s2)
                  (memory_exception ''event_log::event_log()''
                     ''cannot write from_process to event_log array buffer'')
                  (\<lambda>s3. appended (append_view e (map byte_of_char msg) s3)
                     (memory_exception ''event_log::event_log()''
                        ''cannot write message to event_log array buffer'')
                     (\<lambda>s4. Inr \<lparr>ev_buffer = buffer s4, ev_lv = lv, ev_tm = tm,
                                 ev_from = frm, ev_msg = msg\<rparr>)))))"

text \<open>The constructor \<open>event_log(general_shared_array_buffer_t buffer)\<close>.\<close>

definition event_log_from_buffer :: "meta \<Rightarrow> failure + event_log" where
  "event_log_from_buffer b =
     (let stream = buffer_stream b in
      and_then (get_as_T 4 stream)
        (\<lambda>(lv, s1). and_then (get_as_T 8 s1)
           (\<lambda>(tm, s2). and_then (get_as_view s2)
              (\<lambda>(frm, s3).
                 if frm = []
                 then Inl (memory_exception ''event_log::event_log()''
                             ''cannot read from_process from event_log array buffer'')
                 else and_then (get_as_view s3)
                        (\<lambda>(msg, s4).
                           if msg = []
                           then Inl (memory_exception ''event_log::event_log()''
                                       ''cannot read message from event_log array buffer'')
                           else Inr \<lparr>ev_buffer = buffer s4,
                                     ev_lv = word_of_nat (le_value lv),
                                     ev_tm = word_of_nat (le_value tm),
                                     ev_from = map char_of_byte frm,
                                     ev_msg = map char_of_byte msg\<rparr>)))))"

text \<open>\<open>content()\<close> returns a copy of the member \<open>buffer_\<close>: the block after the copy.\<close>

definition content :: "event_log \<Rightarrow> failure + meta" where
  "content ev =
     (case shared_array_buffer_copy (ev_buffer ev) of
        (Inl x, m) \<Rightarrow> Inl x
      | (Inr u, m) \<Rightarrow> Inr m)"

section \<open>The event channel (evchannel.h)\<close>

text \<open>
  A callback receives a \<open>general_shared_array_buffer_t\<close> by value. In the model it
  receives the block its buffer points to, as the block is when the call starts, and the
  rest of the program's state \<open>'w\<close>; it returns the block and the state when it returns,
  or the exception it throws. \<open>evhandlers_\<close> is a \<open>std::map\<close> from event ids to vectors;
  \<open>at\<close> is its \<open>operator[]\<close> (an absent key reads as the empty vector). \<open>cbid_count_\<close> is
  an \<open>int\<close>, which the model lets count without bound.
\<close>

record 'w evhandler_t =
  callback_function :: "meta \<Rightarrow> 'w \<Rightarrow> failure + meta \<times> 'w"
  callback_id :: int







fun registered ::
  "int \<Rightarrow> int \<Rightarrow> (int \<times> (meta \<Rightarrow> 'w \<Rightarrow> failure + meta \<times> 'w)) list \<Rightarrow> 'w evhandler_t list" where
  "registered ueid next [] = []"
| "registered ueid next ((u, f) # regs) =
     (if u = ueid then [\<lparr>callback_function = f, callback_id = next\<rparr>] else [])
     @ registered ueid (next + 1) regs"


section \<open>Wire framing (io.h, evchannel.h)\<close>

subsection \<open>The packet header\<close>

text \<open>
  \<open>struct event_packet_header { int ueid; size_t size; }\<close> is laid out as the x86-64
  System V ABI lays out a struct: each member at the next multiple of its alignment, the
  size of the struct a multiple of its largest alignment. \<open>sizeof(hdr)\<close> is the number of
  bytes \<open>send_packet\<close> writes for the header. The padding bytes are indeterminate: \<open>pad i\<close>
  is the byte at offset \<open>i\<close>.
\<close>

definition align_up :: "nat \<Rightarrow> nat \<Rightarrow> nat" where
  "align_up n a = ((n + a - 1) div a) * a"

definition offsetof_ueid :: nat where
  "offsetof_ueid = 0"

definition offsetof_size :: nat where
  "offsetof_size = align_up (offsetof_ueid + 4) 8"

definition sizeof_event_packet_header :: nat where
  "sizeof_event_packet_header = align_up (offsetof_size + 8) 8"

definition event_packet_header :: "(nat \<Rightarrow> byte) \<Rightarrow> 32 word \<Rightarrow> nat \<Rightarrow> byte list" where
  "event_packet_header pad ueid sz =
     le_bytes 4 (unat ueid) @ map pad [offsetof_ueid + 4..<offsetof_size]
     @ le_bytes 8 sz @ map pad [offsetof_size + 8..<sizeof_event_packet_header]"

subsection \<open>writefd and send_packet\<close>

text \<open>
  The descriptor is the list of what its next calls of \<open>write\<close> do: accept \<open>k\<close> of the
  bytes offered (\<open>wrote k\<close>), fail with \<open>EINTR\<close>, \<open>EAGAIN\<close> or \<open>EWOULDBLOCK\<close>
  (\<open>interrupted\<close>), or fail otherwise; \<open>write_error\<close> carries the text \<open>writefd\<close> formats for
  its exception. \<open>writefd\<close> takes the bytes still to write and the bytes the descriptor has
  accepted so far; it returns its result, the rest of the list and the bytes accepted, or
  \<open>None\<close> when the list ends while bytes are left (the call has not returned by then).
\<close>

datatype write_result = wrote nat | interrupted | write_error string

fun writefd ::
  "write_result list \<Rightarrow> byte list \<Rightarrow> byte list
     \<Rightarrow> ((failure + unit) \<times> write_result list \<times> byte list) option" where
  "writefd script [] accepted = Some (Inr (), script, accepted)"
| "writefd [] (b # buf) accepted = None"
| "writefd (wrote k # script) (b # buf) accepted =
     writefd script (drop k (b # buf)) (accepted @ take k (b # buf))"
| "writefd (interrupted # script) (b # buf) accepted = writefd script (b # buf) accepted"
| "writefd (write_error reason # script) (b # buf) accepted =
     Some (Inl (io_exception ''writefd()'' reason), script, accepted)"

text \<open>
  \<open>send_packet<E>(fd, ev)\<close>, given \<open>E::unique_event_id\<close> and the block of the event's
  member \<open>buffer_\<close> (\<open>ev.content()\<close> copies it). The result is what the call returns or
  throws, and the bytes the descriptor has accepted.
\<close>

definition send_packet ::
  "(nat \<Rightarrow> byte) \<Rightarrow> write_result list \<Rightarrow> 32 word \<Rightarrow> meta \<Rightarrow> ((failure + unit) \<times> byte list) option" where
  "send_packet pad script ueid event_buffer =
     (case shared_array_buffer_copy event_buffer of
        (Inl x, m) \<Rightarrow> Some (Inl x, [])
      | (Inr u, cont) \<Rightarrow>
          (let hdr = event_packet_header pad ueid (capacity cont)
           in case writefd script hdr [] of
                None \<Rightarrow> None
              | Some (Inl x, script', accepted) \<Rightarrow> Some (Inl x, accepted)
              | Some (Inr u', script', accepted) \<Rightarrow>
                  (case writefd script' (take (capacity cont) (bytes cont)) accepted of
                     None \<Rightarrow> None
                   | Some (r, script'', accepted') \<Rightarrow> Some (r, accepted'))))"

subsection \<open>nonblocking_socket_stream::read and recv_packet\<close>

text \<open>
  The socket is the list of what its next calls of \<open>recv(fd_, tmp, 1024, 0)\<close> do: deliver
  between 1 and 1024 bytes, return 0 (the peer has shut down), fail with \<open>EAGAIN\<close> or
  \<open>EWOULDBLOCK\<close>, or fail otherwise (the loop then calls \<open>recv\<close> again). \<open>None\<close> is the
  loop still running when the list ends.
\<close>

datatype recv_result = received "byte list" | peer_closed | would_block | recv_error

fun read_loop :: "env \<Rightarrow> recv_result list \<Rightarrow> unit buffer_stream \<Rightarrow> (failure + buffer) option" where
  "read_loop e [] stream = None"
| "read_loop e (received tmp # script) stream =
     (case append_raw e tmp (length tmp) stream of
        Inl x \<Rightarrow> Some (Inl x)
      | Inr (ok, stream') \<Rightarrow>
          if ok then read_loop e script stream'
          else Some (Inl (io_exception ''nonblocking_socket_stream::read()'' ''cannot write buffer'')))"
| "read_loop e (peer_closed # script) stream =
     Some (Inl (io_exception ''nonblocking_socket_stream::read()'' ''met EOF''))"
| "read_loop e (would_block # script) stream = Some (Inr (buffer stream))"
| "read_loop e (recv_error # script) stream = read_loop e script stream"

definition nonblocking_socket_stream_read :: "env \<Rightarrow> recv_result list \<Rightarrow> (failure + buffer) option" where
  "nonblocking_socket_stream_read e script =
     (case unique_array_buffer e 1024 of
        Inl x \<Rightarrow> Some (Inl x)
      | Inr b \<Rightarrow> read_loop e script ((buffer_stream b)\<lparr>auto_expand := True\<rparr>))"

text \<open>
  The \<open>try\<close> block of \<open>recv_packet\<close>. \<open>base\<close> is \<open>pointer()\<close> of the drained buffer. The
  argument of \<open>recv_stream.append\<close> is the \<open>char*\<close> that \<open>stream.reference(12, size)\<close> returns;
  for one argument of type \<open>char*\<close> overload resolution selects the template
  \<open>append<T>(const T&)\<close> with \<open>T = char*\<close> (an exact match, where \<open>std::string_view\<close> needs a
  conversion), which writes the \<open>sizeof(char*)\<close> bytes of the pointer itself.
\<close>

definition recv_packet_try :: "env \<Rightarrow> addr \<Rightarrow> buffer \<Rightarrow> failure + 32 word \<times> meta" where
  "recv_packet_try e base b =
     (let stream = buffer_stream b in
      and_then (get_as_T 4 stream)
        (\<lambda>(evid, s1). and_then (get_as_T 8 s1)
           (\<lambda>(sz, s2). and_then (shared_array_buffer e (le_value sz))
              (\<lambda>recv_buf.
                 let recv_stream = buffer_stream recv_buf;
                     p = (case reference s2 12 (le_value sz) of
                            None \<Rightarrow> 0
                          | Some off \<Rightarrow> base + off)
                 in and_then (append_T e (le_bytes 8 p) recv_stream)
                      (\<lambda>(ok, rs). Inr (word_of_nat (le_value evid), buffer rs))))))"

text \<open>\<open>recv_packet\<close>: the \<open>catch\<close> replaces any memory exception of the block by its own.\<close>

definition recv_packet :: "env \<Rightarrow> addr \<Rightarrow> recv_result list \<Rightarrow> (failure + 32 word \<times> meta) option" where
  "recv_packet e base script =
     (case nonblocking_socket_stream_read e script of
        None \<Rightarrow> None
      | Some (Inl x) \<Rightarrow> Some (Inl x)
      | Some (Inr b) \<Rightarrow>
          Some (case recv_packet_try e base b of
                  Inl (memory_exception who reason) \<Rightarrow>
                    Inl (memory_exception ''recv_packet()'' ''cannot read packet array buffer'')
                | Inl x \<Rightarrow> Inl x
                | Inr r \<Rightarrow> Inr r))"

text \<open>
  The layout the constructor writes: the level, the time, then each string as its length
  (a \<open>size_t\<close>) and its characters.
\<close>

definition event_log_bytes :: "32 word \<Rightarrow> 64 word \<Rightarrow> string \<Rightarrow> string \<Rightarrow> byte list" where
  "event_log_bytes lv tm frm msg =
     le_bytes 4 (unat lv) @ le_bytes 8 (unat tm)
     @ le_bytes 8 (length frm) @ map byte_of_char frm
     @ le_bytes 8 (length msg) @ map byte_of_char msg"

text \<open>
  A stream in auto-expand mode that has written \<open>pre\<close> so far: it stands at the end of
  \<open>pre\<close>, which is the start of the buffer's contents.
\<close>

definition filled :: "'b buffer_stream \<Rightarrow> byte list \<Rightarrow> bool" where
  "filled s pre \<longleftrightarrow>
     auto_expand s \<and> position s = length pre \<and>
     take (length pre) (bytes (buffer s)) = pre \<and>
     length pre \<le> capacity (buffer s) \<and>
     length (bytes (buffer s)) = capacity (buffer s) \<and>
     capacity (buffer s) < 2 ^ 64"

section \<open>Properties\<close>

subsection \<open>Allocators\<close>

lemma reallocate_loop_absent:
  "p \<notin> set ps \<Longrightarrow> reallocate_loop r p n ps h = (Inr 0, ps, h)"
  by (induction ps) auto

lemma aligned_reallocate_loop_absent:
  "p \<notin> ptr ` set cs \<Longrightarrow> aligned_reallocate_loop r p n al cs h = (Inr 0, cs, h)"
  by (induction cs) auto

text \<open>
  C10. For a pointer \<open>p\<close> that the registry does not record, \<open>reallocate(p, n)\<close> of
  \<open>heap_allocator\<close> and of \<open>aligned_heap_allocator\<close> returns \<open>nullptr\<close> (it does not throw,
  whatever \<open>realloc\<close> would have answered), and the registry and the heap of live blocks
  are the ones before the call.
\<close>

theorem reallocate_unknown_pointer:
  "(p \<notin> set (ptrs a) \<longrightarrow> reallocate r p n (a, h) = (Inr 0, a, h)) \<and>
   (p \<notin> ptr ` set (chunks b) \<longrightarrow> aligned_reallocate r p n (b, h) = (Inr 0, b, h))"
  by (simp add: reallocate_def aligned_reallocate_def reallocate_loop_absent
      aligned_reallocate_loop_absent)

theorem reallocate_unknown_pointer_witness:
  "(3::nat) \<notin> set (ptrs \<lparr>ptrs = [4096, 8192]\<rparr>) \<and>
   reallocate 12288 3 64 (\<lparr>ptrs = [4096, 8192]\<rparr>, [4096 \<mapsto> 16, 8192 \<mapsto> 32])
     = (Inr 0, \<lparr>ptrs = [4096, 8192]\<rparr>, [4096 \<mapsto> 16, 8192 \<mapsto> 32]) \<and>
   (3::nat) \<notin> ptr ` set (chunks \<lparr>chunks = [\<lparr>ptr = 4096, offset = 0\<rparr>], align = 16\<rparr>) \<and>
   aligned_reallocate 12288 3 64
       (\<lparr>chunks = [\<lparr>ptr = 4096, offset = 0\<rparr>], align = 16\<rparr>, [4096 \<mapsto> 16, 8192 \<mapsto> 32])
     = (Inr 0, \<lparr>chunks = [\<lparr>ptr = 4096, offset = 0\<rparr>], align = 16\<rparr>, [4096 \<mapsto> 16, 8192 \<mapsto> 32])"
  using reallocate_unknown_pointer [of 3 "\<lparr>ptrs = [4096, 8192]\<rparr>" 12288 64
      "[4096 \<mapsto> 16, 8192 \<mapsto> 32]" "\<lparr>chunks = [\<lparr>ptr = 4096, offset = 0\<rparr>], align = 16\<rparr>"]
  by simp

text \<open>
  The address \<open>allocate\<close> of the aligned allocator returns is the address of \<open>malloc\<close> plus
  its remainder by the boundary, so its own remainder is twice that one.
\<close>

lemma aligned_allocate_address:
  assumes "r \<noteq> 0" and "0 < al" and "al < 2 ^ 64" and "r + r mod nat al < 2 ^ 64"
  shows "fst (aligned_allocate r n (\<lparr>chunks = cs, align = al\<rparr>, h)) = Inr (r + r mod nat al)"
  using assms
  by (simp add: aligned_allocate_def c_malloc_def size_of_int_def size_add_def Let_def)

text \<open>
  C4. The claim asks that the address \<open>allocate\<close> and \<open>reallocate\<close> return be a multiple of
  the boundary. With a boundary of 64, when \<open>malloc\<close> answers \<open>0x10010\<close> (a multiple of 16,
  as the C library guarantees) \<open>allocate(8)\<close> returns \<open>0x10020\<close>, and when \<open>realloc\<close>
  answers \<open>0x20010\<close> \<open>reallocate\<close> returns \<open>0x20020\<close>; neither is a multiple of 64.
\<close>

theorem aligned_allocate_not_aligned:
  "aligned_allocate 65552 8 (\<lparr>chunks = [], align = 64\<rparr>, Map.empty)
     = (Inr 65568, \<lparr>chunks = [\<lparr>ptr = 65568, offset = 16\<rparr>], align = 64\<rparr>, [65552 \<mapsto> 72]) \<and>
   fst (aligned_reallocate 131088 65568 100
          (\<lparr>chunks = [\<lparr>ptr = 65568, offset = 16\<rparr>], align = 64\<rparr>, [65552 \<mapsto> 72]))
     = Inr 131104 \<and>
   (65568::nat) mod 64 = 32 \<and> (131104::nat) mod 64 = 32"
  by (simp add: aligned_allocate_def aligned_reallocate_def c_malloc_def c_realloc_def
      size_add_def size_sub_def size_of_int_def)

subsection \<open>Shared buffers\<close>

lemma count_list_split:
  "i < length xs \<Longrightarrow>
   count_list xs a = count_list (take i xs) a + (if xs ! i = a then 1 else 0) + count_list (drop (Suc i) xs) a"
proof -
  assume "i < length xs"
  then have "xs = take i xs @ xs ! i # drop (Suc i) xs"
    by (rule id_take_nth_drop)
  then have "count_list xs a = count_list (take i xs @ xs ! i # drop (Suc i) xs) a"
    by simp
  then show ?thesis by simp
qed

lemma count_list_remove:
  "i < length xs \<Longrightarrow>
   count_list (take i xs @ drop (Suc i) xs) a = count_list xs a - (if xs ! i = a then 1 else 0)"
  by (simp add: count_list_split [of i xs a])

lemma count_list_move:
  "i < length xs \<Longrightarrow> count_list (xs[i := nullptr] @ [xs ! i]) block = count_list xs block"
  by (simp add: upd_conv_take_nth_drop count_list_split [of i xs block])

lemma count_list_pos:
  "i < length xs \<Longrightarrow> xs ! i = a \<Longrightarrow> 0 < count_list xs a"
  by (simp add: count_list_split [of i xs a])

lemma live_copy:
  "live (w\<lparr>the_meta := m, objects := objects w @ [block]\<rparr>) = Suc (live w)"
  by (simp add: live_def)

lemma live_move:
  assumes "i < length (objects w)"
  shows "live (w\<lparr>objects := (objects w)[i := nullptr] @ [objects w ! i]\<rparr>) = live w"
proof -
  have "objects (w\<lparr>objects := (objects w)[i := nullptr] @ [objects w ! i]\<rparr>)
          = (objects w)[i := nullptr] @ [objects w ! i]"
    by simp
  then show ?thesis
    unfolding live_def by (simp only: count_list_move [OF assms])
qed

lemma live_destroy:
  assumes "i < length (objects w)"
  shows "live (w\<lparr>the_meta := m, releases := r,
                  objects := take i (objects w) @ drop (Suc i) (objects w)\<rparr>)
           = live w - (if objects w ! i = block then 1 else 0)"
proof -
  have "objects (w\<lparr>the_meta := m, releases := r,
                    objects := take i (objects w) @ drop (Suc i) (objects w)\<rparr>)
          = take i (objects w) @ drop (Suc i) (objects w)"
    by simp
  then show ?thesis
    unfolding live_def by (simp only: count_list_remove [OF assms])
qed

lemma live_pos:
  "i < length (objects w) \<Longrightarrow> objects w ! i = block \<Longrightarrow> 0 < live w"
  unfolding live_def by (rule count_list_pos)

lemma step_consistent:
  assumes "consistent w" and "apply_operation op w = Inr w'"
  shows "consistent w' \<and>
         (releases w' = releases w + 1 \<longleftrightarrow>
            reference_count (the_meta w) = 1 \<and> reference_count (the_meta w') = 0) \<and>
         (releases w' \<noteq> releases w + 1 \<longrightarrow> releases w' = releases w)"
proof (cases op)
  case (copy_construct i)
  with assms show ?thesis
    by (auto simp: consistent_def live_copy shared_array_buffer_copy_def
        split: if_splits meta_ptr.splits)
next
  case (move_construct i)
  with assms show ?thesis
    by (auto simp: consistent_def live_move split: if_splits)
next
  case (destroy i)
  from assms(2) destroy have i: "i < length (objects w)"
    by (auto split: if_splits)
  from assms(2) destroy i obtain m r
    where d: "shared_array_buffer_destroy (objects w ! i) (the_meta w, releases w) = Inr (m, r)"
      and w': "w' = w\<lparr>the_meta := m, releases := r,
                        objects := take i (objects w) @ drop (Suc i) (objects w)\<rparr>"
    by (auto split: sum.splits)
  have l: "live w' = live w - (if objects w ! i = block then 1 else 0)"
    unfolding w' by (rule live_destroy [OF i])
  have m: "the_meta w' = m" and r: "releases w' = r"
    unfolding w' by simp_all
  show ?thesis
  proof (cases "objects w ! i")
    case nullptr
    with d l m r assms(1) show ?thesis
      by (auto simp: consistent_def shared_array_buffer_destroy_def)
  next
    case block
    from live_pos [OF i block] have pos: "0 < live w" .
    from assms(1) have rc: "reference_count (the_meta w) = int (live w)"
      by (simp add: consistent_def)
    from rc have nmin: "reference_count (the_meta w) \<noteq> INT_MIN"
      by (simp add: INT_MIN_def)
    from d block nmin have rc': "reference_count (the_meta w') = reference_count (the_meta w) - 1"
      and r': "releases w' = (if reference_count (the_meta w) - 1 = 0 then releases w + 1 else releases w)"
      unfolding m r by (auto simp: shared_array_buffer_destroy_def Let_def split: if_splits)
    from block l rc rc' r' assms(1) pos show ?thesis
      by (auto simp: consistent_def)
  qed
qed

lemma run_consistent:
  "consistent w \<Longrightarrow> run ops w = Inr w' \<Longrightarrow> consistent w'"
proof (induction ops arbitrary: w)
  case Nil
  then show ?case by simp
next
  case (Cons op ops)
  then show ?case
    by (auto split: sum.splits dest: step_consistent)
qed

lemma initial_consistent:
  "shared_array_buffer e cap = Inr m \<Longrightarrow> consistent (initial_world m)"
  by (auto simp: shared_array_buffer_def consistent_def live_def initial_world_def split: if_splits)

text \<open>
  C1. Start from a shared buffer as its constructor leaves it, with one object, and run
  any sequence of copy constructions, move constructions and destructions that the
  language defines. In the state reached the reference count is the number of objects
  that still point to the block, the allocator has been released at most once, and it
  has been released exactly if the count is zero. Any further operation releases the
  allocator exactly when it takes the count from 1 to 0, and releases it at most once.
\<close>

theorem shared_buffer_reference_count:
  assumes "shared_array_buffer e cap = Inr m"
    and "run ops (initial_world m) = Inr w"
  shows "reference_count (the_meta w) = int (live w) \<and>
         releases w \<le> 1 \<and>
         (releases w = 1 \<longleftrightarrow> reference_count (the_meta w) = 0) \<and>
         (\<forall>op w'. apply_operation op w = Inr w' \<longrightarrow>
            (releases w' = releases w + 1 \<longleftrightarrow>
               reference_count (the_meta w) = 1 \<and> reference_count (the_meta w') = 0) \<and>
            (releases w' \<noteq> releases w + 1 \<longrightarrow> releases w' = releases w))"
proof -
  from assms have c: "consistent w"
    by (blast intro: run_consistent initial_consistent)
  then have "reference_count (the_meta w) = int (live w)"
    and "releases w \<le> 1"
    and "releases w = 1 \<longleftrightarrow> reference_count (the_meta w) = 0"
    by (simp_all add: consistent_def)
  moreover from c have "\<forall>op w'. apply_operation op w = Inr w' \<longrightarrow>
            (releases w' = releases w + 1 \<longleftrightarrow>
               reference_count (the_meta w) = 1 \<and> reference_count (the_meta w') = 0) \<and>
            (releases w' \<noteq> releases w + 1 \<longrightarrow> releases w' = releases w)"
    by (blast dest: step_consistent)
  ultimately show ?thesis by blast
qed

theorem shared_buffer_reference_count_witness:
  "shared_array_buffer \<lparr>can_alloc = \<lambda>n. True, uninit = \<lambda>i. 0\<rparr> 2
     = Inr \<lparr>capacity = 2, bytes = [0, 0], reference_count = 1\<rparr> \<and>
   run [copy_construct 0, move_construct 1, destroy 0, destroy 0, destroy 0]
       (initial_world \<lparr>capacity = 2, bytes = [0, 0], reference_count = 1\<rparr>)
     = Inr \<lparr>the_meta = \<lparr>capacity = 2, bytes = [0, 0], reference_count = 0\<rparr>,
            releases = 1, objects = []\<rparr> \<and>
   reference_count (the_meta \<lparr>the_meta = \<lparr>capacity = 2, bytes = [0, 0], reference_count = 0\<rparr>,
                              releases = 1, objects = []\<rparr>)
     = int (live \<lparr>the_meta = \<lparr>capacity = 2, bytes = [0, 0], reference_count = 0\<rparr>,
                   releases = 1, objects = []\<rparr>) \<and>
   releases \<lparr>the_meta = \<lparr>capacity = 2, bytes = [0, 0], reference_count = 0\<rparr>,
             releases = 1, objects = []\<rparr> \<le> 1"
proof -
  have h1: "shared_array_buffer \<lparr>can_alloc = \<lambda>n. True, uninit = \<lambda>i. 0\<rparr> 2
     = Inr \<lparr>capacity = 2, bytes = [0, 0], reference_count = 1\<rparr>"
    by (simp add: shared_array_buffer_def upt_rec)
  have h2: "run [copy_construct 0, move_construct 1, destroy 0, destroy 0, destroy 0]
       (initial_world \<lparr>capacity = 2, bytes = [0, 0], reference_count = 1\<rparr>)
     = Inr \<lparr>the_meta = \<lparr>capacity = 2, bytes = [0, 0], reference_count = 0\<rparr>,
            releases = 1, objects = []\<rparr>"
    by (simp add: initial_world_def shared_array_buffer_copy_def shared_array_buffer_destroy_def
        INT_MAX_def INT_MIN_def)
  from shared_buffer_reference_count [OF h1 h2] h1 h2 show ?thesis
    by simp
qed

text \<open>
  C5. On a block whose count is zero the copy constructor throws the memory exception
  "source array buffer has released" and leaves the block, count included, as it was. On
  a block whose count is not negative (every consistent state) it succeeds, or adds one
  to the count, only if the count is greater than zero; and when the count is greater
  than zero (and below \<open>INT_MAX\<close>) it does add one.
\<close>

theorem copy_constructor_checks_count:
  assumes "0 \<le> reference_count m"
  shows "(reference_count m = 0 \<longrightarrow>
            shared_array_buffer_copy m
              = (Inl (memory_exception
                        ''shared_array_buffer::shared_array_buffer(const shared_array_buffer&)''
                        ''source array buffer has released''), m)) \<and>
         (fst (shared_array_buffer_copy m) = Inr () \<longrightarrow> 0 < reference_count m) \<and>
         (reference_count (snd (shared_array_buffer_copy m)) \<noteq> reference_count m
            \<longrightarrow> 0 < reference_count m) \<and>
         (0 < reference_count m \<and> reference_count m < INT_MAX \<longrightarrow>
            shared_array_buffer_copy m = (Inr (), m\<lparr>reference_count := reference_count m + 1\<rparr>))"
  using assms by (auto simp: shared_array_buffer_copy_def)

theorem copy_constructor_checks_count_witness:
  "0 \<le> reference_count \<lparr>capacity = 2, bytes = [0, 0], reference_count = 0\<rparr> \<and>
   shared_array_buffer_copy \<lparr>capacity = 2, bytes = [0, 0], reference_count = 0\<rparr>
     = (Inl (memory_exception
               ''shared_array_buffer::shared_array_buffer(const shared_array_buffer&)''
               ''source array buffer has released''),
        \<lparr>capacity = 2, bytes = [0, 0], reference_count = 0\<rparr>) \<and>
   0 < reference_count \<lparr>capacity = 2, bytes = [0, 0], reference_count = 1\<rparr> \<and>
   reference_count \<lparr>capacity = 2, bytes = [0, 0], reference_count = 1\<rparr> < INT_MAX \<and>
   shared_array_buffer_copy \<lparr>capacity = 2, bytes = [0, 0], reference_count = 1\<rparr>
     = (Inr (), \<lparr>capacity = 2, bytes = [0, 0], reference_count = 2\<rparr>)"
  using copy_constructor_checks_count [of "\<lparr>capacity = 2, bytes = [0, 0], reference_count = 0\<rparr>"]
    copy_constructor_checks_count [of "\<lparr>capacity = 2, bytes = [0, 0], reference_count = 1\<rparr>"]
  by (simp add: INT_MAX_def)

subsection \<open>buffer_stream\<close>

lemma size_add_small: "a + b < 2 ^ 64 \<Longrightarrow> size_add a b = a + b"
  by (simp add: size_add_def)

lemma size_sub_small:
  assumes "b \<le> a" and "a < 2 ^ 64"
  shows "size_sub a b = a - b"
proof -
  from assms have b: "b < 2 ^ 64" by (rule le_less_trans)
  have "size_sub a b = (a + 2 ^ 64 - b) mod 2 ^ 64"
    using assms(2) b by (simp add: size_sub_def)
  also have "a + 2 ^ 64 - b = (a - b) + 2 ^ 64"
    using assms(1) by (rule Nat.diff_add_assoc2)
  also have "\<dots> mod 2 ^ 64 = (a - b) mod 2 ^ 64"
    by (rule mod_add_self2)
  also have "\<dots> = a - b"
    using assms(2) by (intro mod_less le_less_trans [OF diff_le_self])
  finally show ?thesis .
qed


lemma reference_in_bounds:
  "off + sz \<le> capacity (buffer s) \<Longrightarrow> capacity (buffer s) < 2 ^ 64 \<Longrightarrow> reference s off sz = Some off"
  by (simp add: reference_def size_add_small)

lemma read_in_bounds:
  "off + sz \<le> capacity (buffer s) \<Longrightarrow> capacity (buffer s) < 2 ^ 64 \<Longrightarrow>
   length (bytes (buffer s)) = capacity (buffer s) \<Longrightarrow>
   read s off sz = Inr (Some (take sz (drop off (bytes (buffer s)))))"
  by (simp add: read_def reference_in_bounds load_def and_then_def)




lemma strlen_terminated: "0 \<notin> set str \<Longrightarrow> strlen (str @ 0 # rest) = Some (length str)"
  by (induction str) auto

text \<open>
  C9, as the code has it. On a stream whose buffer holds, from the position on, the bytes
  \<open>str\<close> without a zero and then a zero byte, \<open>get()\<close> returns \<open>str\<close> and advances the
  position by the length of \<open>str\<close>: the position is then the index of the zero byte,
  not past it. The end-of-stream flag is unchanged.
\<close>

theorem get_string_leaves_cursor_at_terminator:
  assumes "bytes (buffer s) = pre @ str @ 0 # rest"
    and "length pre = position s"
    and "0 \<notin> set str"
    and "length (bytes (buffer s)) = capacity (buffer s)"
    and "capacity (buffer s) < 2 ^ 64"
  shows "get_string s = Inr (str, s\<lparr>position := position s + length str\<rparr>) \<and>
         bytes (buffer s) ! (position s + length str) = 0"
proof -
  have dr: "drop (position s) (bytes (buffer s)) = str @ 0 # rest"
    unfolding assms(1) assms(2) [symmetric] by simp
  have len: "strlen (drop (position s) (bytes (buffer s))) = Some (length str)"
    unfolding dr using assms(3) by (rule strlen_terminated)
  have "length (bytes (buffer s)) = position s + length str + Suc (length rest)"
    unfolding assms(1) assms(2) [symmetric] by simp
  with assms(4) have lt: "position s + length str < capacity (buffer s)"
    by simp
  with assms(5) have sum: "size_add (position s) (length str) = position s + length str"
    by (simp add: size_add_small)
  from lt assms(5) have sub: "size_sub (position s + length str) (length str) = position s"
    by (simp add: size_sub_small)
  from lt assms(4) assms(5)
  have "read (s\<lparr>position := position s + length str\<rparr>) (position s) (length str)
      = Inr (Some (take (length str) (drop (position s) (bytes (buffer s)))))"
    by (simp add: read_in_bounds)
  then have rd: "read (s\<lparr>position := position s + length str\<rparr>) (position s) (length str)
      = Inr (Some str)"
    unfolding dr by simp
  have z: "bytes (buffer s) ! (position s + length str) = 0"
    unfolding assms(1) assms(2) [symmetric] by (simp add: nth_append)
  from lt have ne: "position s + length str \<noteq> capacity (buffer s)"
    by simp
  show ?thesis
    unfolding get_string_def len by (simp add: Let_def sum sub rd z ne)
qed

theorem get_string_leaves_cursor_at_terminator_witness:
  "bytes (buffer \<lparr>buffer = \<lparr>capacity = 4, bytes = [104, 105, 0, 120]\<rparr>, position = 0,
                  eof = False, auto_expand = False\<rparr>) = [] @ [104, 105] @ 0 # [120] \<and>
   (0::byte) \<notin> set [104, 105] \<and>
   get_string \<lparr>buffer = \<lparr>capacity = 4, bytes = [104, 105, 0, 120]\<rparr>, position = 0,
               eof = False, auto_expand = False\<rparr>
     = Inr ([104, 105],
            \<lparr>buffer = \<lparr>capacity = 4, bytes = [104, 105, 0, 120]\<rparr>, position = 2,
             eof = False, auto_expand = False\<rparr>)"
  using get_string_leaves_cursor_at_terminator [of "\<lparr>buffer = \<lparr>capacity = 4, bytes = [104, 105, 0, 120]\<rparr>,
      position = 0, eof = False, auto_expand = False\<rparr>" "[]" "[104, 105]" "[120]"]
  by simp

text \<open>
  C9, as stated, asks for a position past the zero byte. On the buffer of the four bytes
  \<open>h\<close>, \<open>i\<close>, zero, \<open>x\<close> read from position 0, \<open>get()\<close> returns \<open>"hi"\<close> and the position is 2,
  the index of the zero byte.
\<close>

theorem get_string_not_past_terminator:
  "get_string \<lparr>buffer = \<lparr>capacity = 4, bytes = [104, 105, 0, 120]\<rparr>, position = 0,
               eof = False, auto_expand = False\<rparr>
     = Inr ([104, 105],
            \<lparr>buffer = \<lparr>capacity = 4, bytes = [104, 105, 0, 120]\<rparr>, position = 2,
             eof = False, auto_expand = False\<rparr>) \<and>
   [104, 105, 0, 120 :: byte] ! 2 = 0 \<and>
   \<not> 2 < position \<lparr>buffer = \<lparr>capacity = 4, bytes = [104, 105, 0, 120]\<rparr>, position = 2,
                     eof = False, auto_expand = False\<rparr>"
  by (simp add: get_string_def read_def reference_def load_def and_then_def size_add_def
      size_sub_def)

subsection \<open>The logging event\<close>

lemma length_le_bytes [simp]: "length (le_bytes n v) = n"
  by (induction n arbitrary: v) simp_all

lemma le_value_le_bytes: "v < 256 ^ n \<Longrightarrow> le_value (le_bytes n v) = v"
proof (induction n arbitrary: v)
  case 0
  then show ?case by simp
next
  case (Suc n)
  from Suc.prems have "v div 256 < 256 ^ n"
    by (simp add: less_mult_imp_div_less mult.commute)
  then have "le_value (le_bytes n (v div 256)) = v div 256"
    by (rule Suc.IH)
  moreover have "unat (word_of_nat (v mod 256) :: byte) = v mod 256"
    by (simp add: unat_of_nat)
  ultimately show ?case by simp
qed

lemma char_of_byte_of_char [simp]: "char_of_byte (byte_of_char c) = c"
proof -
  have "unat (word_of_nat (of_char c) :: byte) = of_char c"
    using nat_of_char_less_256 [of c] by (simp add: unat_of_nat)
  then show ?thesis
    by (simp add: char_of_byte_def byte_of_char_def)
qed

lemma char_of_byte_comp [simp]: "char_of_byte \<circ> byte_of_char = id"
  by (rule ext) simp

lemma le_bytes_4:
  "le_bytes 4 v = [word_of_nat (v mod 256), word_of_nat (v div 256 mod 256),
                   word_of_nat (v div 256 div 256 mod 256),
                   word_of_nat (v div 256 div 256 div 256 mod 256)]"
proof -
  have "(4::nat) = Suc (Suc (Suc (Suc 0)))"
    by simp
  then show ?thesis
    by (simp only: le_bytes.simps)
qed

lemma le_bytes_8:
  "le_bytes 8 v = le_bytes 4 v @ le_bytes 4 (v div 256 div 256 div 256 div 256)"
proof -
  have "(8::nat) = Suc (Suc (Suc (Suc 4)))"
    by simp
  then show ?thesis
    unfolding le_bytes_4 by (simp only: le_bytes.simps le_bytes_4 append.simps)
qed

lemma grow_filled:
  assumes "filled s pre" and "can_alloc e c" and "length pre \<le> c" and "c < 2 ^ 64"
  shows "\<exists>s'. grow e c s = Inr s' \<and> filled s' pre \<and>
              capacity (buffer s') = max (capacity (buffer s)) c \<and>
              buffer.more (buffer s') = buffer.more (buffer s) \<and> eof s' = eof s"
proof (cases "capacity (buffer s) \<le> c")
  case True
  with assms show ?thesis
    by (simp add: grow_def expand_def filled_def max_def)
next
  case False
  with assms show ?thesis
    by (simp add: grow_def filled_def max_def)
qed

lemma write_prefix:
  assumes "take (length pre) (bytes (buffer s)) = pre"
    and "length pre + length t \<le> capacity (buffer s)"
    and "length (bytes (buffer s)) = capacity (buffer s)"
    and "capacity (buffer s) < 2 ^ 64"
    and "sz = length t"
  shows "\<exists>s'. write' s t (length pre) sz = Inr (Some s') \<and>
              position s' = position s \<and> auto_expand s' = auto_expand s \<and>
              take (length pre + length t) (bytes (buffer s')) = pre @ t \<and>
              length (bytes (buffer s')) = capacity (buffer s') \<and>
              capacity (buffer s') = capacity (buffer s) \<and>
              buffer.more (buffer s') = buffer.more (buffer s)"
  using assms
  by (simp add: write'_def size_add_small store_def and_then_def)

lemma append_T_filled:
  assumes "filled s pre"
    and "can_alloc e (length pre + length t)"
    and "length pre + length t < 2 ^ 64"
  shows "\<exists>s'. append_T e t s = Inr (True, s') \<and> filled s' (pre @ t) \<and>
              capacity (buffer s') = max (capacity (buffer s)) (length pre + length t) \<and>
              buffer.more (buffer s') = buffer.more (buffer s)"
proof -
  let ?curr = "length pre + length t"
  from assms(1) have pos: "position s = length pre"
    by (simp add: filled_def)
  with assms(3) have curr: "size_add (position s) (length t) = ?curr"
    by (simp add: size_add_small)
  from grow_filled [OF assms(1) assms(2) _ assms(3)] obtain s0
    where g: "grow e ?curr s = Inr s0" and f0: "filled s0 pre"
      and c0: "capacity (buffer s0) = max (capacity (buffer s)) ?curr"
      and m0: "buffer.more (buffer s0) = buffer.more (buffer s)"
    by auto
  define s2 where "s2 = (if ?curr = capacity (buffer s0) then s0\<lparr>eof := True\<rparr> else s0)\<lparr>position := ?curr\<rparr>"
  have b2: "buffer s2 = buffer s0" and a2: "auto_expand s2 = auto_expand s0"
    and p2: "position s2 = ?curr"
    by (simp_all add: s2_def)
  from f0 have tk: "take (length pre) (bytes (buffer s2)) = pre"
    and wf: "length (bytes (buffer s2)) = capacity (buffer s2)"
    and cp: "capacity (buffer s2) < 2 ^ 64"
    unfolding b2 by (simp_all add: filled_def)
  from c0 have le: "length pre + length t \<le> capacity (buffer s2)"
    unfolding b2 by simp
  from write_prefix [OF tk le wf cp refl] obtain s'
    where w: "write' s2 t (length pre) (length t) = Inr (Some s')"
    and p': "position s' = ?curr" and a': "auto_expand s' = auto_expand s0"
    and t': "take (length pre + length t) (bytes (buffer s')) = pre @ t"
    and l': "length (bytes (buffer s')) = capacity (buffer s')"
    and c': "capacity (buffer s') = capacity (buffer s0)"
    and m': "buffer.more (buffer s') = buffer.more (buffer s0)"
    unfolding b2 a2 p2 by blast
  from assms(3) have sub: "size_sub ?curr (length t) = length pre"
    by (simp add: size_sub_small)
  have "append_T e t s = Inr (True, s')"
    unfolding append_T_def Let_def curr g using w by (simp add: sub s2_def)
  moreover from f0 p' a' t' l' c' c0 have "filled s' (pre @ t)"
    by (simp add: filled_def)
  ultimately show ?thesis
    using c' c0 m' m0 by simp
qed

lemma append_view_filled:
  assumes "filled s pre"
    and "can_alloc e (length pre + (length sv + 8))"
    and "length pre + (length sv + 8) < 2 ^ 64"
  shows "\<exists>s'. append_view e sv s = Inr (True, s') \<and>
              filled s' (pre @ le_bytes 8 (length sv) @ sv) \<and>
              capacity (buffer s') = max (capacity (buffer s)) (length pre + (length sv + 8)) \<and>
              buffer.more (buffer s') = buffer.more (buffer s)"
proof -
  let ?n = "length sv"
  let ?curr = "length pre + (?n + 8)"
  let ?L = "le_bytes 8 ?n"
  from assms(1) have pos: "position s = length pre"
    by (simp add: filled_def)
  from assms(3) have len: "size_add ?n 8 = ?n + 8"
    by (simp add: size_add_small)
  from pos assms(3) have curr: "size_add (position s) (?n + 8) = ?curr"
    by (simp add: size_add_small)
  from grow_filled [OF assms(1) assms(2) _ assms(3)] obtain s0
    where g: "grow e ?curr s = Inr s0" and f0: "filled s0 pre"
      and c0: "capacity (buffer s0) = max (capacity (buffer s)) ?curr"
      and m0: "buffer.more (buffer s0) = buffer.more (buffer s)"
    by auto
  define s2 where "s2 = (if ?curr = capacity (buffer s0) then s0\<lparr>eof := True\<rparr> else s0)\<lparr>position := ?curr\<rparr>"
  have b2: "buffer s2 = buffer s0" and a2: "auto_expand s2 = auto_expand s0"
    and p2: "position s2 = ?curr"
    by (simp_all add: s2_def)
  from f0 have tk: "take (length pre) (bytes (buffer s2)) = pre"
    and wf: "length (bytes (buffer s2)) = capacity (buffer s2)"
    and cp: "capacity (buffer s2) < 2 ^ 64"
    unfolding b2 by (simp_all add: filled_def)
  from c0 have le: "length pre + length ?L \<le> capacity (buffer s2)"
    unfolding b2 by simp
  have l8: "8 = length ?L"
    by simp
  from write_prefix [OF tk le wf cp l8] obtain s3
    where w3: "write' s2 ?L (length pre) 8 = Inr (Some s3)"
    and p3: "position s3 = ?curr" and a3: "auto_expand s3 = auto_expand s0"
    and t3: "take (length (pre @ ?L)) (bytes (buffer s3)) = pre @ ?L"
    and l3: "length (bytes (buffer s3)) = capacity (buffer s3)"
    and c3: "capacity (buffer s3) = capacity (buffer s0)"
    and m3: "buffer.more (buffer s3) = buffer.more (buffer s0)"
    unfolding b2 a2 p2 by auto
  from cp have cp3: "capacity (buffer s3) < 2 ^ 64"
    unfolding b2 c3 .
  from c0 have le3: "length (pre @ ?L) + length sv \<le> capacity (buffer s3)"
    unfolding c3 by simp
  from write_prefix [OF t3 le3 l3 cp3 refl] obtain s4
    where w4: "write' s3 sv (length pre + 8) ?n = Inr (Some s4)"
    and p4: "position s4 = ?curr" and a4: "auto_expand s4 = auto_expand s0"
    and t4: "take (length (pre @ ?L @ sv)) (bytes (buffer s4)) = pre @ ?L @ sv"
    and l4: "length (bytes (buffer s4)) = capacity (buffer s4)"
    and c4: "capacity (buffer s4) = capacity (buffer s0)"
    and m4: "buffer.more (buffer s4) = buffer.more (buffer s0)"
    unfolding p3 a3 c3 m3 by (auto simp: add.assoc)
  from assms(3) have sub1: "size_sub ?curr (?n + 8) = length pre"
    by (simp add: size_sub_small)
  from assms(3) have sub2: "size_sub ?curr ?n = length pre + 8"
    by (simp add: size_sub_small)
  have "append_view e sv s = Inr (True, s4)"
    unfolding append_view_def Let_def len curr g using w3 w4 by (simp add: sub1 sub2 p3 s2_def)
  moreover from f0 p4 a4 t4 l4 c4 c0 have "filled s4 (pre @ ?L @ sv)"
    by (simp add: filled_def)
  ultimately show ?thesis
    using c4 c0 m4 m0 by simp
qed

lemma reference_position [simp]: "reference (s\<lparr>position := p\<rparr>) off sz = reference s off sz"
  by (simp add: reference_def)

lemma reference_eof [simp]: "reference (s\<lparr>eof := f\<rparr>) off sz = reference s off sz"
  by (simp add: reference_def)

lemma get_as_T_at:
  assumes "bytes (buffer s) = pre @ t @ rest"
    and "position s = length pre"
    and "length (bytes (buffer s)) = capacity (buffer s)"
    and "capacity (buffer s) < 2 ^ 64"
  shows "\<exists>s'. get_as_T (length t) s = Inr (t, s') \<and> buffer s' = buffer s \<and>
              position s' = length pre + length t"
proof -
  from assms(1) have "length (bytes (buffer s)) = length pre + length t + length rest"
    by simp
  with assms(3) have le: "length pre + length t \<le> capacity (buffer s)"
    by simp
  with assms have curr: "size_add (position s) (length t) = length pre + length t"
    by (simp add: size_add_small)
  from le assms have sub: "size_sub (length pre + length t) (length t) = length pre"
    by (simp add: size_sub_small)
  from le assms(4) have r: "reference s (length pre) (length t) = Some (length pre)"
    by (rule reference_in_bounds)
  from le assms(3) have "load (buffer s) (length pre) (length t)
                           = Inr (take (length t) (drop (length pre) (bytes (buffer s))))"
    by (simp add: load_def)
  then have l: "load (buffer s) (length pre) (length t) = Inr t"
    unfolding assms(1) by simp
  show ?thesis
    unfolding get_as_T_def Let_def curr
    by (simp add: sub r l and_then_def)
qed

lemma get_as_view_at:
  assumes "bytes (buffer s) = pre @ le_bytes 8 (length sv) @ sv @ rest"
    and "position s = length pre"
    and "length (bytes (buffer s)) = capacity (buffer s)"
    and "capacity (buffer s) < 2 ^ 64"
  shows "get_as_view s = Inr (sv, s\<lparr>position := length pre + 8 + length sv\<rparr>)"
proof -
  from assms(1) have "length (bytes (buffer s)) = length pre + 8 + length sv + length rest"
    by simp
  with assms(3) have le: "length pre + 8 + length sv \<le> capacity (buffer s)"
    by simp
  with assms(4) have n: "length sv < 256 ^ 8"
    by simp
  from le assms have r1: "reference s (position s) 8 = Some (length pre)"
    by (simp add: reference_in_bounds)
  have v: "le_value (take 8 (drop (length pre) (bytes (buffer s)))) = length sv"
    unfolding assms(1) using n by (simp add: le_value_le_bytes)
  from le assms(3) have l1: "load (buffer s) (length pre) 8
                               = Inr (take 8 (drop (length pre) (bytes (buffer s))))"
    by (simp add: load_def)
  from le assms have a1: "size_add (position s) 8 = length pre + 8"
    by (simp add: size_add_small)
  from le assms have r2: "reference s (length pre + 8) (length sv) = Some (length pre + 8)"
    by (simp add: reference_in_bounds)
  from le assms have a2: "size_add (position s) (size_add 8 (length sv)) = length pre + 8 + length sv"
    by (simp add: size_add_small)
  have d: "take (length sv) (drop (length pre + 8) (bytes (buffer s))) = sv"
    unfolding assms(1) by simp
  from le assms(3) have "load (buffer s) (length pre + 8) (length sv)
                           = Inr (take (length sv) (drop (length pre + 8) (bytes (buffer s))))"
    by (simp add: load_def)
  then have l2: "load (buffer s) (length pre + 8) (length sv) = Inr sv"
    unfolding d .
  show ?thesis
    unfolding get_as_view_def r1 by (simp add: l1 v a1 r2 a2 l2 Let_def and_then_def)
qed


lemma reference_count_more:
  "buffer.more a = buffer.more b \<Longrightarrow> reference_count a = reference_count (b::meta)"
  by (cases a, cases b) simp

lemma filled_exact:
  assumes "filled s pre" and "capacity (buffer s) = length pre"
  shows "bytes (buffer s) = pre"
proof -
  from assms have "take (length (bytes (buffer s))) (bytes (buffer s)) = pre"
    by (simp add: filled_def)
  then show ?thesis
    by simp
qed

lemma event_log_constructs:
  assumes alloc: "\<forall>n. can_alloc e n"
    and small: "28 + length frm + length msg < 2 ^ 64"
  shows "event_log e lv tm frm msg
           = Inr \<lparr>ev_buffer = \<lparr>capacity = 28 + length frm + length msg,
                                bytes = event_log_bytes lv tm frm msg,
                                reference_count = 1\<rparr>,
                   ev_lv = lv, ev_tm = tm, ev_from = frm, ev_msg = msg\<rparr>"
proof -
  let ?f = "length frm" and ?g = "length msg"
  let ?LV = "le_bytes 4 (unat lv)" and ?TM = "le_bytes 8 (unat tm)"
  let ?F = "map byte_of_char frm" and ?G = "map byte_of_char msg"
  let ?cap0 = "13 + ?f + ?g"
  let ?b0 = "\<lparr>capacity = ?cap0, bytes = map (uninit e) [0..<?cap0], reference_count = 1\<rparr>"
  let ?s0 = "(buffer_stream ?b0)\<lparr>auto_expand := True\<rparr>"
  from small have cap0: "size_add (size_add (size_add (size_add 4 8) ?f) ?g) 1 = ?cap0"
    by (simp add: size_add_def)
  from alloc have b0: "shared_array_buffer e ?cap0 = Inr ?b0"
    by (simp add: shared_array_buffer_def)
  from small have f0: "filled ?s0 []"
    by (simp add: filled_def buffer_stream_def)
  from alloc have a: "\<And>n. can_alloc e n"
    by simp
  from append_T_filled [OF f0 a, of ?LV] small obtain s1
    where s1: "append_T e ?LV ?s0 = Inr (True, s1)" and f1: "filled s1 ?LV"
      and c1: "capacity (buffer s1) = ?cap0" and m1: "buffer.more (buffer s1) = buffer.more ?b0"
    by (auto simp: buffer_stream_def)
  from append_T_filled [OF f1 a, of ?TM] small obtain s2
    where s2: "append_T e ?TM s1 = Inr (True, s2)" and f2: "filled s2 (?LV @ ?TM)"
      and c2: "capacity (buffer s2) = ?cap0" and m2: "buffer.more (buffer s2) = buffer.more ?b0"
    unfolding c1 m1 by auto
  from append_view_filled [OF f2 a, of ?F] small obtain s3
    where s3: "append_view e ?F s2 = Inr (True, s3)"
      and f3: "filled s3 ((?LV @ ?TM) @ le_bytes 8 ?f @ ?F)"
      and c3: "capacity (buffer s3) = max ?cap0 (20 + ?f)"
      and m3: "buffer.more (buffer s3) = buffer.more ?b0"
    unfolding c2 m2 by (auto simp: add.commute add.left_commute)
  from append_view_filled [OF f3 a, of ?G] small obtain s4
    where s4: "append_view e ?G s3 = Inr (True, s4)"
      and f4: "filled s4 (((?LV @ ?TM) @ le_bytes 8 ?f @ ?F) @ le_bytes 8 ?g @ ?G)"
      and c4: "capacity (buffer s4) = 28 + ?f + ?g"
      and m4: "buffer.more (buffer s4) = buffer.more ?b0"
    unfolding c3 m3 by (auto simp: add.commute add.left_commute max_def)
  from f4 c4 have "bytes (buffer s4) = ((?LV @ ?TM) @ le_bytes 8 ?f @ ?F) @ le_bytes 8 ?g @ ?G"
    by (intro filled_exact) simp_all
  then have by4: "bytes (buffer s4) = event_log_bytes lv tm frm msg"
    by (simp add: event_log_bytes_def)
  from m4 have "reference_count (buffer s4) = reference_count ?b0"
    by (rule reference_count_more)
  then have rc4: "reference_count (buffer s4) = 1"
    by simp
  have "buffer s4 = \<lparr>capacity = 28 + ?f + ?g, bytes = event_log_bytes lv tm frm msg,
                      reference_count = 1\<rparr>"
    using c4 by4 rc4 by (cases "buffer s4") simp
  then show ?thesis
    unfolding event_log_def cap0 b0 and_then_def Let_def
    by (simp add: s1 s2 s3 s4 appended_def)
qed


lemma word_of_le_bytes:
  "word_of_nat (le_value (le_bytes 4 (unat (w :: 32 word)))) = w"
  "word_of_nat (le_value (le_bytes 8 (unat (v :: 64 word)))) = v"
proof -
  have "unat w < 256 ^ 4"
    using unsigned_less [of w, where 'a = nat] by simp
  then show "word_of_nat (le_value (le_bytes 4 (unat w))) = w"
    by (simp add: le_value_le_bytes)
  have "unat v < 256 ^ 8"
    using unsigned_less [of v, where 'a = nat] by simp
  then show "word_of_nat (le_value (le_bytes 8 (unat v))) = v"
    by (simp add: le_value_le_bytes)
qed

lemma event_log_from_buffer_decodes:
  assumes "frm \<noteq> []" and "msg \<noteq> []"
    and small: "28 + length frm + length msg < 2 ^ 64"
  shows "event_log_from_buffer
           \<lparr>capacity = 28 + length frm + length msg, bytes = event_log_bytes lv tm frm msg,
            reference_count = rc\<rparr>
         = Inr \<lparr>ev_buffer = \<lparr>capacity = 28 + length frm + length msg,
                              bytes = event_log_bytes lv tm frm msg, reference_count = rc\<rparr>,
                 ev_lv = lv, ev_tm = tm, ev_from = frm, ev_msg = msg\<rparr>"
proof -
  let ?f = "length frm" and ?g = "length msg"
  let ?LV = "le_bytes 4 (unat lv)" and ?TM = "le_bytes 8 (unat tm)"
  let ?F = "map byte_of_char frm" and ?G = "map byte_of_char msg"
  let ?b = "\<lparr>capacity = 28 + ?f + ?g, bytes = event_log_bytes lv tm frm msg, reference_count = rc\<rparr>"
  let ?s0 = "buffer_stream ?b"
  have wf: "length (bytes ?b) = capacity ?b"
    by (simp add: event_log_bytes_def)
  have "bytes (buffer ?s0) = [] @ ?LV @ (?TM @ le_bytes 8 ?f @ ?F @ le_bytes 8 ?g @ ?G)"
    by (simp add: buffer_stream_def event_log_bytes_def)
  from get_as_T_at [OF this] wf small obtain s1
    where g1: "get_as_T 4 ?s0 = Inr (?LV, s1)" and b1: "buffer s1 = ?b" and p1: "position s1 = 4"
    by (auto simp: buffer_stream_def)
  have "bytes (buffer s1) = ?LV @ ?TM @ (le_bytes 8 ?f @ ?F @ le_bytes 8 ?g @ ?G)"
    unfolding b1 by (simp add: event_log_bytes_def)
  from get_as_T_at [OF this] wf small p1 obtain s2
    where g2: "get_as_T 8 s1 = Inr (?TM, s2)" and b2: "buffer s2 = ?b" and p2: "position s2 = 12"
    unfolding b1 by auto
  have y3: "bytes (buffer s2) = (?LV @ ?TM) @ le_bytes 8 (length ?F) @ ?F @ (le_bytes 8 ?g @ ?G)"
    unfolding b2 by (simp add: event_log_bytes_def)
  have g3: "get_as_view s2 = Inr (?F, s2\<lparr>position := length (?LV @ ?TM) + 8 + length ?F\<rparr>)"
    using wf small p2 unfolding b2 [symmetric]
    by (intro get_as_view_at [OF y3]) (simp_all add: b2)
  let ?s3 = "s2\<lparr>position := length (?LV @ ?TM) + 8 + length ?F\<rparr>"
  have y4: "bytes (buffer ?s3) = ((?LV @ ?TM) @ le_bytes 8 ?f @ ?F) @ le_bytes 8 (length ?G) @ ?G @ []"
    by (simp add: b2 event_log_bytes_def)
  have g4: "get_as_view ?s3
              = Inr (?G, ?s3\<lparr>position := length ((?LV @ ?TM) @ le_bytes 8 ?f @ ?F) + 8 + length ?G\<rparr>)"
    using wf small by (intro get_as_view_at [OF y4]) (simp_all add: b2)
  from assms have ne: "?F \<noteq> []" "?G \<noteq> []"
    by simp_all
  from g3 have g3': "get_as_view s2 = Inr (?F, s2\<lparr>position := 20 + ?f\<rparr>)"
    by simp
  from g4 have g4': "get_as_view (s2\<lparr>position := 20 + ?f\<rparr>)
                       = Inr (?G, s2\<lparr>position := 28 + ?f + ?g\<rparr>)"
    by (simp add: add.commute add.left_commute)
  show ?thesis
    unfolding event_log_from_buffer_def Let_def and_then_def g1
    using ne by (simp add: g2 g3' g4' b2 word_of_le_bytes)
qed

text \<open>
  C6. When the allocations succeed, for every level, time and non-empty \<open>from\<close> and \<open>msg\<close>
  (whose serialised size is a \<open>size_t\<close>), constructing an \<open>event_log\<close> from the four
  values, taking \<open>content()\<close> and constructing an \<open>event_log\<close> from that buffer succeeds
  and yields an event with the same level, time, \<open>from\<close> and \<open>msg\<close>. Every log level is
  a value \<open>log_level_value l\<close> of \<open>lv\<close>.
\<close>

theorem event_log_round_trip:
  assumes "\<forall>n. can_alloc e n"
    and "frm \<noteq> []" and "msg \<noteq> []"
    and "28 + length frm + length msg < 2 ^ 64"
  shows "and_then (event_log e lv tm frm msg) (\<lambda>ev. and_then (content ev) event_log_from_buffer)
         = Inr \<lparr>ev_buffer = \<lparr>capacity = 28 + length frm + length msg,
                              bytes = event_log_bytes lv tm frm msg, reference_count = 2\<rparr>,
                 ev_lv = lv, ev_tm = tm, ev_from = frm, ev_msg = msg\<rparr>"
  unfolding event_log_constructs [OF assms(1) assms(4)]
  by (simp add: and_then_def content_def shared_array_buffer_copy_def INT_MAX_def
      event_log_from_buffer_decodes [OF assms(2) assms(3) assms(4)])

theorem event_log_round_trip_witness:
  "(\<forall>n. can_alloc \<lparr>can_alloc = \<lambda>n. True, uninit = \<lambda>i. 170\<rparr> n) \<and>
   ''svc'' \<noteq> [] \<and> ''boom'' \<noteq> [] \<and>
   28 + length ''svc'' + length ''boom'' < (2::nat) ^ 64 \<and>
   and_then (event_log \<lparr>can_alloc = \<lambda>n. True, uninit = \<lambda>i. 170\<rparr>
               (log_level_value ERROR) 1700000000 ''svc'' ''boom'')
     (\<lambda>ev. and_then (content ev) event_log_from_buffer)
   = Inr \<lparr>ev_buffer = \<lparr>capacity = 35,
                        bytes = [5, 0, 0, 0, 0, 241, 83, 101, 0, 0, 0, 0,
                                 3, 0, 0, 0, 0, 0, 0, 0, 115, 118, 99,
                                 4, 0, 0, 0, 0, 0, 0, 0, 98, 111, 111, 109],
                        reference_count = 2\<rparr>,
           ev_lv = 5, ev_tm = 1700000000, ev_from = ''svc'', ev_msg = ''boom''\<rparr>"
  using event_log_round_trip [of "\<lparr>can_alloc = \<lambda>n. True, uninit = \<lambda>i. 170\<rparr>" "''svc''" "''boom''"
      "log_level_value ERROR" 1700000000]
  by (simp add: event_log_bytes_def byte_of_char_def le_bytes_4 le_bytes_8)

subsection \<open>The event channel\<close>



text \<open>
  The ids of the handlers a sequence of subscriptions registers under \<open>ueid\<close> are the
  counter plus the positions, in the sequence, of the subscriptions made under \<open>ueid\<close>:
  they are the ids \<open>subscribe\<close> returned for them, and those of no other subscription.
\<close>

lemma registered_ids:
  "map callback_id (registered ueid n regs)
     = map (\<lambda>i. n + int i) (filter (\<lambda>i. fst (regs ! i) = ueid) [0..<length regs])"
proof (induction regs arbitrary: n)
  case Nil
  then show ?case by simp
next
  case (Cons reg regs)
  obtain u f where reg: "reg = (u, f)"
    by (cases reg)
  have "[0..<Suc (length regs)] = 0 # [Suc 0..<Suc (length regs)]"
    by (rule upt_conv_Cons) simp
  then have up: "[0..<length (reg # regs)] = 0 # map Suc [0..<length regs]"
    by (simp only: map_Suc_upt list.size(4) One_nat_def add_Suc_right add_0_right)
  have ih: "map callback_id (registered ueid (n + 1) regs)
          = map (\<lambda>i. n + int (Suc i)) (filter (\<lambda>i. fst (regs ! i) = ueid) [0..<length regs])"
    unfolding Cons.IH by (simp add: add.assoc add.commute)
  have "map (\<lambda>i. n + int i) (filter (\<lambda>i. fst ((reg # regs) ! i) = ueid) (0 # map Suc [0..<length regs]))
          = (if u = ueid then [n] else [])
            @ map (\<lambda>i. n + int (Suc i)) (filter (\<lambda>i. fst (regs ! i) = ueid) [0..<length regs])"
    unfolding reg by (simp add: filter_map o_def)
  then have "map (\<lambda>i. n + int i) (filter (\<lambda>i. fst ((reg # regs) ! i) = ueid) [0..<length (reg # regs)])
          = (if u = ueid then [n] else [])
            @ map (\<lambda>i. n + int (Suc i)) (filter (\<lambda>i. fst (regs ! i) = ueid) [0..<length regs])"
    unfolding up .
  moreover have "map callback_id (registered ueid n (reg # regs))
          = (if u = ueid then [n] else []) @ map callback_id (registered ueid (n + 1) regs)"
    unfolding reg by simp
  ultimately show ?case
    unfolding ih by simp
qed












subsection \<open>Wire framing\<close>

lemma header_layout: "offsetof_size = 8" "sizeof_event_packet_header = 16"
  by (simp_all add: offsetof_size_def sizeof_event_packet_header_def align_up_def offsetof_ueid_def)

text \<open>
  Whenever \<open>send_packet\<close> returns, the descriptor has accepted the 16 bytes of the header
  (the id at offset 0, four padding bytes, the size at offset 8) and then the payload.
\<close>

lemma writefd_returns:
  "writefd script buf acc = Some (Inr (), script', acc') \<Longrightarrow> acc' = acc @ buf"
proof (induction script buf acc rule: writefd.induct)
  case (3 k script b buf accepted)
  then have "acc' = (accepted @ take k (b # buf)) @ drop k (b # buf)"
    by simp
  then show ?case
    by (simp only: append_assoc append_take_drop_id)
qed simp_all

lemma event_packet_header_bytes:
  "event_packet_header pad ueid sz
     = le_bytes 4 (unat ueid) @ [pad 4, pad 5, pad 6, pad 7] @ le_bytes 8 sz"
  by (simp add: event_packet_header_def header_layout offsetof_ueid_def upt_rec)

lemma send_packet_writes:
  assumes "send_packet pad script ueid b = Some (Inr (), wire)"
  shows "wire = le_bytes 4 (unat ueid) @ [pad 4, pad 5, pad 6, pad 7] @ le_bytes 8 (capacity b)
                @ take (capacity b) (bytes b)"
proof -
  from assms obtain cont where c: "shared_array_buffer_copy b = (Inr (), cont)"
    by (cases "shared_array_buffer_copy b") (auto simp: send_packet_def split: sum.splits)
  then have cb: "capacity cont = capacity b" "bytes cont = bytes b"
    by (auto simp: shared_array_buffer_copy_def split: if_splits)
  let ?hdr = "event_packet_header pad ueid (capacity b)"
  from assms c cb obtain script' acc
    where h: "writefd script ?hdr [] = Some (Inr (), script', acc)"
    by (auto simp: send_packet_def Let_def split: option.splits sum.splits)
  from assms c cb h obtain script''
    where p: "writefd script' (take (capacity b) (bytes b)) acc = Some (Inr (), script'', wire)"
    by (auto simp: send_packet_def Let_def split: option.splits sum.splits)
  from writefd_returns [OF h] writefd_returns [OF p] show ?thesis
    by (simp add: event_packet_header_bytes)
qed

text \<open>
  C2. The claim asks for a header of 12 bytes with the payload size at offset 4. For the
  logging event \<open>{ERROR, 1700000000, "svc", "boom"}\<close>, whose content is 35 bytes, on a
  descriptor that is interrupted once and then accepts 10, 6 and 35 bytes, \<open>send_packet\<close>
  writes 16 + 35 bytes: the header is \<open>sizeof(event_packet_header) = 16\<close> bytes, and the
  size field is at offset 8.
\<close>

theorem send_packet_writes_16_byte_header:
  "sizeof_event_packet_header = 16 \<and> offsetof_size = 8 \<and>
   send_packet (\<lambda>i. 0) [interrupted, wrote 10, wrote 6, wrote 35] 1
     \<lparr>capacity = 35,
      bytes = [5, 0, 0, 0, 0, 241, 83, 101, 0, 0, 0, 0,
               3, 0, 0, 0, 0, 0, 0, 0, 115, 118, 99,
               4, 0, 0, 0, 0, 0, 0, 0, 98, 111, 111, 109],
      reference_count = 1\<rparr>
   = Some (Inr (),
           [1, 0, 0, 0, 0, 0, 0, 0, 35, 0, 0, 0, 0, 0, 0, 0,
            5, 0, 0, 0, 0, 241, 83, 101, 0, 0, 0, 0,
            3, 0, 0, 0, 0, 0, 0, 0, 115, 118, 99,
            4, 0, 0, 0, 0, 0, 0, 0, 98, 111, 111, 109]) \<and>
   length [1, 0, 0, 0, 0, 0, 0, 0, 35, 0, 0, 0, 0, 0, 0, 0,
            5, 0, 0, 0, 0, 241, 83, 101, 0, 0, 0, 0,
            3, 0, 0, 0, 0, 0, 0, 0, 115, 118, 99,
            4, 0, 0, 0, 0, 0, 0, 0, 98, 111, 111, 109 :: byte] = 16 + 35"
  by (simp add: header_layout send_packet_def shared_array_buffer_copy_def INT_MAX_def
      event_packet_header_bytes le_bytes_4 le_bytes_8)

text \<open>
  C3. The claim asks that \<open>recv_packet\<close> after \<open>send_packet\<close> yield the id and the payload
  bytes. For the same event, \<open>send_packet\<close> writes the 51 bytes below. \<open>recv_packet\<close>, having
  drained them, reads bytes 4 to 11 (the padding and the low half of the size) as the
  length, \<open>35 * 2 ^ 32\<close>; with a C library that grants requests below 4 GiB the
  allocation fails and \<open>recv_packet\<close> throws. And on a stream framed with a 12-byte header
  as the claim has it, \<open>recv_packet\<close> returns id 1 and a buffer of 35 bytes that holds the
  8 bytes of the pointer \<open>pointer() + 12 = 0x2000c\<close> and 27 uninitialised bytes, not
  the payload.
\<close>

theorem recv_packet_after_send_packet:
  "send_packet (\<lambda>i. 0) [wrote 16, wrote 35] 1
     \<lparr>capacity = 35,
      bytes = [5, 0, 0, 0, 0, 241, 83, 101, 0, 0, 0, 0,
               3, 0, 0, 0, 0, 0, 0, 0, 115, 118, 99,
               4, 0, 0, 0, 0, 0, 0, 0, 98, 111, 111, 109],
      reference_count = 1\<rparr>
   = Some (Inr (),
           [1, 0, 0, 0, 0, 0, 0, 0, 35, 0, 0, 0, 0, 0, 0, 0,
            5, 0, 0, 0, 0, 241, 83, 101, 0, 0, 0, 0,
            3, 0, 0, 0, 0, 0, 0, 0, 115, 118, 99,
            4, 0, 0, 0, 0, 0, 0, 0, 98, 111, 111, 109]) \<and>
   recv_packet \<lparr>can_alloc = \<lambda>n. n < 2 ^ 32, uninit = \<lambda>i. 170\<rparr> 131072
     [received [1, 0, 0, 0, 0, 0, 0, 0, 35, 0, 0, 0, 0, 0, 0, 0,
            5, 0, 0, 0, 0, 241, 83, 101, 0, 0, 0, 0,
            3, 0, 0, 0, 0, 0, 0, 0, 115, 118, 99,
            4, 0, 0, 0, 0, 0, 0, 0, 98, 111, 111, 109],
      would_block]
   = Some (Inl (memory_exception ''recv_packet()'' ''cannot read packet array buffer'')) \<and>
   recv_packet \<lparr>can_alloc = \<lambda>n. n < 2 ^ 32, uninit = \<lambda>i. 170\<rparr> 131072
     [received [1, 0, 0, 0, 35, 0, 0, 0, 0, 0, 0, 0,
            5, 0, 0, 0, 0, 241, 83, 101, 0, 0, 0, 0,
            3, 0, 0, 0, 0, 0, 0, 0, 115, 118, 99,
            4, 0, 0, 0, 0, 0, 0, 0, 98, 111, 111, 109],
      would_block]
   = Some (Inr (1, \<lparr>capacity = 35,
                    bytes = [12, 0, 2, 0, 0, 0, 0, 0,
                             170, 170, 170, 170, 170, 170, 170, 170, 170,
                             170, 170, 170, 170, 170, 170, 170, 170, 170,
                             170, 170, 170, 170, 170, 170, 170, 170, 170],
                    reference_count = 1\<rparr>))"
proof (intro conjI)
  show "send_packet (\<lambda>i. 0) [wrote 16, wrote 35] 1
     \<lparr>capacity = 35,
      bytes = [5, 0, 0, 0, 0, 241, 83, 101, 0, 0, 0, 0,
               3, 0, 0, 0, 0, 0, 0, 0, 115, 118, 99,
               4, 0, 0, 0, 0, 0, 0, 0, 98, 111, 111, 109],
      reference_count = 1\<rparr>
   = Some (Inr (),
           [1, 0, 0, 0, 0, 0, 0, 0, 35, 0, 0, 0, 0, 0, 0, 0,
            5, 0, 0, 0, 0, 241, 83, 101, 0, 0, 0, 0,
            3, 0, 0, 0, 0, 0, 0, 0, 115, 118, 99,
            4, 0, 0, 0, 0, 0, 0, 0, 98, 111, 111, 109])"
    by (simp add: send_packet_def shared_array_buffer_copy_def INT_MAX_def
        event_packet_header_bytes le_bytes_4 le_bytes_8)
  show "recv_packet \<lparr>can_alloc = \<lambda>n. n < 2 ^ 32, uninit = \<lambda>i. 170\<rparr> 131072
     [received [1, 0, 0, 0, 0, 0, 0, 0, 35, 0, 0, 0, 0, 0, 0, 0,
            5, 0, 0, 0, 0, 241, 83, 101, 0, 0, 0, 0,
            3, 0, 0, 0, 0, 0, 0, 0, 115, 118, 99,
            4, 0, 0, 0, 0, 0, 0, 0, 98, 111, 111, 109],
      would_block]
   = Some (Inl (memory_exception ''recv_packet()'' ''cannot read packet array buffer''))"
    by (simp add: recv_packet_def nonblocking_socket_stream_read_def unique_array_buffer_def
        buffer_stream_def append_raw_def grow_def size_add_def size_sub_def write'_def
        recv_packet_try_def get_as_T_def reference_def and_then_def load_def store_def
        shared_array_buffer_def
        sizeof_meta_def Let_def)
  show "recv_packet \<lparr>can_alloc = \<lambda>n. n < 2 ^ 32, uninit = \<lambda>i. 170\<rparr> 131072
     [received [1, 0, 0, 0, 35, 0, 0, 0, 0, 0, 0, 0,
            5, 0, 0, 0, 0, 241, 83, 101, 0, 0, 0, 0,
            3, 0, 0, 0, 0, 0, 0, 0, 115, 118, 99,
            4, 0, 0, 0, 0, 0, 0, 0, 98, 111, 111, 109],
      would_block]
   = Some (Inr (1, \<lparr>capacity = 35,
                    bytes = [12, 0, 2, 0, 0, 0, 0, 0,
                             170, 170, 170, 170, 170, 170, 170, 170, 170,
                             170, 170, 170, 170, 170, 170, 170, 170, 170,
                             170, 170, 170, 170, 170, 170, 170, 170, 170],
                    reference_count = 1\<rparr>))"
    by (simp add: recv_packet_def nonblocking_socket_stream_read_def unique_array_buffer_def
        buffer_stream_def append_raw_def grow_def size_add_def size_sub_def write'_def
        recv_packet_try_def get_as_T_def reference_def and_then_def load_def store_def
        shared_array_buffer_def
        sizeof_meta_def Let_def append_T_def le_bytes_4 le_bytes_8 upt_rec)
qed

end
